theory Spec2Isabelle
  imports Main
begin

unbundle bit_operations_syntax

section \<open>The XML2RFC v2 rendering backend (xml2rfcv2.go)\<close>

text \<open>
  A shallow embedding of the renderer \<open>Xml2\<close> of \<open>xml2rfcv2.go\<close>. Every method of the
  renderer takes the renderer (\<open>options\<close>) and the output buffer (\<open>out\<close>) and returns both,
  updated. Byte slices and strings are \<open>string\<close> (lists of 8-bit characters). A method
  that can panic returns \<open>Inl\<close> of the panic.
\<close>

subsection \<open>Integers\<close>

text \<open>
  Go's \<open>int\<close> is 64 bits wide and its arithmetic wraps around. A value of type \<open>int\<close> is
  modelled as an \<open>int\<close> between \<open>-2^63\<close> and \<open>2^63 - 1\<close>, and \<open>go_int\<close> brings the result of an
  operation back into that range. It is applied where the operands come from the caller
  and the result can leave the range: in \<open>Header\<close>, to \<open>options.sectionLevel - level + 1\<close>.
  The other arithmetic of the file cannot leave it: the loop counters run from a positive
  value down to 0 and \<open>options.sectionLevel\<close> is counted down with them, from the same value;
  the index \<open>i + 1\<close> of \<open>CommentHtml\<close> is at most 20; \<open>refi\<close> and \<open>refn\<close> count entries of a map.
\<close>

definition go_int :: "int \<Rightarrow> int" where
  "go_int x = (x + 2 ^ 63) mod 2 ^ 64 - 2 ^ 63"

subsection \<open>Panics\<close>

text \<open>The run-time panics the modelled code can raise.\<close>

datatype panic =
    SliceBoundsOutOfRange   \<comment> \<open>a slice expression \<open>s[lo:hi]\<close> outside \<open>0 \<le> lo \<le> hi \<le> len(s)\<close>\<close>
  | IndexOutOfRange         \<comment> \<open>an index expression \<open>s[i]\<close> with \<open>i \<ge> len(s)\<close>\<close>
  | TruncateOutOfRange      \<comment> \<open>\<open>bytes.Buffer.Truncate(n)\<close> with \<open>n < 0\<close> or \<open>n > Len()\<close>\<close>

subsection \<open>The output buffer and byte slices (Go's package bytes)\<close>

text \<open>
  The buffer is only ever written to, so its unread portion is its whole content.
\<close>

definition WriteString :: "string \<Rightarrow> string \<Rightarrow> string" where
  "WriteString out s = out @ s"

definition Write :: "string \<Rightarrow> string \<Rightarrow> string" where
  "Write out p = out @ p"

definition Len :: "string \<Rightarrow> int" where
  "Len out = int (length out)"

definition Truncate :: "string \<Rightarrow> int \<Rightarrow> panic + string" where
  "Truncate out n =
     (if n < 0 \<or> n > Len out then Inl TruncateOutOfRange else Inr (take (nat n) out))"

text \<open>The slice expressions \<open>s[lo:]\<close> and \<open>s[:hi]\<close>, and the index expression \<open>s[i]\<close>.\<close>

definition slice_from :: "string \<Rightarrow> int \<Rightarrow> panic + string" where
  "slice_from s lo =
     (if lo < 0 \<or> lo > int (length s) then Inl SliceBoundsOutOfRange else Inr (drop (nat lo) s))"

definition slice_to :: "string \<Rightarrow> int \<Rightarrow> panic + string" where
  "slice_to s hi =
     (if hi < 0 \<or> hi > int (length s) then Inl SliceBoundsOutOfRange else Inr (take (nat hi) s))"

definition index_at :: "string \<Rightarrow> int \<Rightarrow> panic + char" where
  "index_at s i =
     (if i < 0 \<or> i \<ge> int (length s) then Inl IndexOutOfRange else Inr (s ! nat i))"

text \<open>\<open>bytes.HasPrefix\<close> and \<open>bytes.Index\<close> (the first index of \<open>sep\<close> in \<open>s\<close>, or \<open>-1\<close>).\<close>

fun HasPrefix :: "string \<Rightarrow> string \<Rightarrow> bool" where
  "HasPrefix s [] = True"
| "HasPrefix [] (p # ps) = False"
| "HasPrefix (c # s) (p # ps) = (c = p \<and> HasPrefix s ps)"

fun Index :: "string \<Rightarrow> string \<Rightarrow> int" where
  "Index [] sep = (if sep = [] then 0 else - 1)"
| "Index (c # s) sep =
     (if HasPrefix (c # s) sep then 0
      else (let j = Index s sep in if j < 0 then - 1 else j + 1))"

subsection \<open>The renderer\<close>

text \<open>
  The phase constants \<open>DOC_FRONT_MATTER\<close>, \<open>DOC_MAIN_MATTER\<close> and \<open>DOC_BACK_MATTER\<close> are
  declared in another file of the package. The field \<open>docLevel\<close> is a Go \<open>int\<close> and the
  \<open>switch\<close> statements over it have no \<open>default\<close> branch, so every value that is none of
  the three constants behaves alike: \<open>DOC_OTHER\<close> stands for all of them.
\<close>

datatype docLevel = DOC_FRONT_MATTER | DOC_MAIN_MATTER | DOC_BACK_MATTER | DOC_OTHER

text \<open>
  The struct \<open>title\<close> is declared in another file; these are the fields that
  \<open>TitleBlockTOML\<close> reads. \<open>Date\<close> is a \<open>time.Time\<close>, read through its methods
  \<open>Year()\<close>, \<open>Month()\<close> and \<open>Day()\<close> only.
\<close>

record address =
  Email :: string

record author =
  Initials :: string
  Surname :: string
  Fullname :: string
  Organization :: string
  Address :: address

record time =
  Year :: int
  Month :: int
  Day :: int

record title =
  Ipr :: string
  Category :: string
  DocName :: string
  Abbrev :: string
  Title :: string
  Author :: "author list"
  Date :: time
  Area :: string
  Workgroup :: string
  Keyword :: "string list"

text \<open>
  The struct \<open>citation\<close> is declared in another file; \<open>References\<close> reads the fields
  \<open>typ\<close> and \<open>filename\<close>, and whatever else the struct holds is the record's extension.
\<close>

record citation =
  "typ" :: char
  filename :: string

text \<open>
  The renderer itself. The type \<open>IAL\<close> of an inline attribute list is declared in another
  file and the renderer only stores and forwards such values, so it is a type parameter.
\<close>

record 'i Xml2 =
  flags :: int
  sectionLevel :: int
  docLevel :: docLevel
  ial :: "'i list"
  titleBlock :: "title option"

text \<open>
  What the renderer uses and this file does not declare: the flag constants, the helpers
  \<open>renderIAL\<close> and \<open>referenceFile\<close> of the package (both taken as pure functions to
  strings), and the formatting functions of Go's library (\<open>fmt.Sprintf\<close> with one integer
  operand, \<open>strconv.Itoa\<close>, \<open>time.Month.String\<close>). They are parameters of the embedding, and
  every theorem holds for all of them.
\<close>

record ('i, 'c) env =
  XML_STANDALONE :: int
  LIST_TYPE_ORDERED :: int
  LIST_TYPE_DEFINITION :: int
  LIST_INSIDE_LIST :: int
  renderIAL :: "'i list \<Rightarrow> string"
  referenceFile :: "'c citation_scheme \<Rightarrow> string"
  Sprintf :: "string \<Rightarrow> int \<Rightarrow> string"
  Itoa :: "int \<Rightarrow> string"
  Month_String :: "int \<Rightarrow> string"

text \<open>
  The renderer together with the buffer it writes to, and the lazy content callbacks
  \<open>text func() bool\<close>: a closure over both, which renders the nested content and reports
  whether it produced any. A callback is any function of the renderer and the buffer: it
  may write to the buffer, cut it, and call the renderer. It is taken to return.
\<close>

type_synonym 'i rstate = "'i Xml2 \<times> string"

type_synonym 'i callback = "'i rstate \<Rightarrow> bool \<times> 'i rstate"

subsection \<open>The attribute queue\<close>

definition SetIAL :: "'i Xml2 \<Rightarrow> 'i list \<Rightarrow> 'i Xml2" where
  "SetIAL options i = options\<lparr>ial := ial options @ i\<rparr>"

definition GetAndResetIAL :: "'i Xml2 \<Rightarrow> 'i list \<times> 'i Xml2" where
  "GetAndResetIAL options = (ial options, options\<lparr>ial := []\<rparr>)"

subsection \<open>Blocks without content callback\<close>

definition BlockCode :: "('i, 'c) env \<Rightarrow> 'i rstate \<Rightarrow> string \<Rightarrow> string \<Rightarrow> string \<Rightarrow> 'i rstate" where
  \<open>BlockCode K st text lang caption =
     (let (options, out) = st;
          (i, options) = GetAndResetIAL options;
          s = renderIAL K i;
          out = (if lang = '''' then WriteString out (''\<newline><figure'' @ s @ ''><artwork>\<newline>'')
                 else WriteString out (''\<newline><figure'' @ s @ ''><artwork>\<newline>''));
          out = Write out text;
          out = (if lang = '''' then WriteString out ''</artwork></figure>\<newline>''
                 else WriteString out ''</artwork></figure>\<newline>'')
      in (options, out))\<close>

definition BlockQuote :: "'i rstate \<Rightarrow> string \<Rightarrow> 'i rstate" where
  \<open>BlockQuote st text =
     (let (options, out) = st;
          (i, options) = GetAndResetIAL options; \<comment> \<open>the result of \<open>renderIAL\<close> is dropped\<close>
          out = WriteString out ''<t><list style="empty">\<newline>'';
          out = Write out text;
          out = WriteString out ''</list></t>\<newline>''
      in (options, out))\<close>

definition Abstract :: "('i, 'c) env \<Rightarrow> 'i rstate \<Rightarrow> string \<Rightarrow> 'i rstate" where
  \<open>Abstract K st text =
     (let (options, out) = st;
          (i, options) = GetAndResetIAL options;
          s = renderIAL K i;
          out = WriteString out (''<abstract'' @ s @ ''>\<newline>'');
          out = Write out text;
          out = WriteString out ''</abstract>\<newline>''
      in (options, out))\<close>

definition Table ::
  "('i, 'c) env \<Rightarrow> 'i rstate \<Rightarrow> string \<Rightarrow> string \<Rightarrow> int list \<Rightarrow> string \<Rightarrow> 'i rstate" where
  \<open>Table K st header body columnData caption =
     (let (options, out) = st;
          (i, options) = GetAndResetIAL options;
          s = renderIAL K i;
          out = WriteString out (''<texttable'' @ s @ ''>\<newline>'');
          out = Write out header;
          out = Write out body;
          out = WriteString out ''</texttable>\<newline>''
      in (options, out))\<close>

subsection \<open>Comments\<close>

text \<open>Lines 132 to 137 of \<open>CommentHtml\<close>: cut at the terminator, strip the opener.\<close>

definition comment_cut :: "string \<Rightarrow> panic + string" where
  \<open>comment_cut text =
     (let i = Index text ''-->''
      in if i > 0 then slice_to text i else Inr text)\<close>

definition comment_payload :: "string \<Rightarrow> panic + string" where
  "comment_payload text =
     (case comment_cut text of
        Inl e \<Rightarrow> Inl e
      | Inr text \<Rightarrow> slice_from text 4)"

text \<open>
  Lines 139 to 150: the loop \<open>for i := 0; i < l; i++\<close> that looks for the first colon
  among the first \<open>l\<close> bytes. It returns \<open>source\<close> and \<open>text\<close> as they are after the loop.
\<close>

function scan_source :: "int \<Rightarrow> int \<Rightarrow> string \<Rightarrow> panic + (string \<times> string)" where
  "scan_source i l text =
     (if i < l then
        (case index_at text i of
           Inl e \<Rightarrow> Inl e
         | Inr c \<Rightarrow>
             if c = CHR '':'' then
               (case slice_to text i of
                  Inl e \<Rightarrow> Inl e
                | Inr source \<Rightarrow>
                    (case slice_from text (i + 1) of
                       Inl e \<Rightarrow> Inl e
                     | Inr text \<Rightarrow> Inr (source, text)))
             else scan_source (i + 1) l text)
      else Inr ([], text))"
  by pat_completeness auto
termination
  by (relation "measure (\<lambda>(i, l, text). nat (l - i))") auto

definition CommentHtml :: "'i rstate \<Rightarrow> string \<Rightarrow> panic + 'i rstate" where
  \<open>CommentHtml st text =
     (let (options, out) = st
      in case comment_payload text of
           Inl e \<Rightarrow> Inl e
         | Inr text \<Rightarrow>
             (let l = Len text;
                  l = (if l > 20 then 20 else l)
              in case scan_source 0 l text of
                   Inl e \<Rightarrow> Inl e
                 | Inr (source, text) \<Rightarrow>
                     if length source \<noteq> 0 then
                       (case (case index_at source 0 of
                                Inl e \<Rightarrow> Inl e
                              | Inr c \<Rightarrow> if c = CHR '' '' then slice_from source 1 else Inr source) of
                          Inl e \<Rightarrow> Inl e
                        | Inr source \<Rightarrow>
                            (let out = WriteString out ''<t><cref source="'';
                                 out = Write out source;
                                 out = WriteString out ''">'';
                                 out = Write out text;
                                 out = WriteString out ''</cref></t>\<newline>''
                             in Inr (options, out)))
                     else
                       (let out = WriteString out ''<t><cref>\<newline>'';
                            out = Write out text;
                            out = WriteString out ''</cref></t>\<newline>''
                        in Inr (options, out))))\<close>

subsection \<open>Headings\<close>

text \<open>The loop \<open>for i := options.sectionLevel - level + 1; i > 0; i--\<close> of \<open>Header\<close>.\<close>

function close_previous :: "int \<Rightarrow> string \<Rightarrow> string" where
  "close_previous i out =
     (if i > 0 then close_previous (i - 1) (WriteString out ''</section>\<newline>'') else out)"
  by pat_completeness auto
termination
  by (relation "measure (\<lambda>(i, out). nat i)") auto

definition Header :: "'i rstate \<Rightarrow> 'i callback \<Rightarrow> int \<Rightarrow> string \<Rightarrow> 'i rstate" where
  \<open>Header st text level anchor =
     (let (options, out) = st;
          out = (if level \<le> sectionLevel options
                 then close_previous (go_int (go_int (sectionLevel options - level) + 1)) out
                 else out);
          (i, options) = GetAndResetIAL options; \<comment> \<open>the result of \<open>renderIAL\<close> is dropped\<close>
          out = WriteString out (''\<newline><section anchor="'' @ anchor @ ''"'');
          out = WriteString out '' title="'';
          (b, options, out) = text (options, out); \<comment> \<open>the boolean is not looked at\<close>
          out = WriteString out ''">\<newline>'';
          options = options\<lparr>sectionLevel := level\<rparr>
      in (options, out))\<close>

subsection \<open>Lists and paragraphs\<close>

text \<open>Lines 201 to 217 of \<open>List\<close>: the opening tags, with the rendered attributes \<open>s\<close>.\<close>

definition list_open :: "('i, 'c) env \<Rightarrow> int \<Rightarrow> int \<Rightarrow> string \<Rightarrow> string \<Rightarrow> string" where
  \<open>list_open K lflags start s out =
     (let out = (if lflags AND LIST_INSIDE_LIST K = 0 then WriteString out ''<t>\<newline>'' else out)
      in if lflags AND LIST_TYPE_ORDERED K \<noteq> 0 then
           (if start \<le> 1 then WriteString out (''<list style="numbers"'' @ s @ ''>\<newline>'')
            else WriteString out
                   (Sprintf K (''<list style="numbers"'' @ s @ '' start="%d">\<newline>'') start))
         else if lflags AND LIST_TYPE_DEFINITION K \<noteq> 0 then
           WriteString out (''<list style="hanging"'' @ s @ ''>\<newline>'')
         else WriteString out (''<list style="symbols"'' @ s @ ''>\<newline>''))\<close>

text \<open>Lines 223 to 233 of \<open>List\<close>: the closing tags.\<close>

definition list_close :: "('i, 'c) env \<Rightarrow> int \<Rightarrow> string \<Rightarrow> string" where
  \<open>list_close K lflags out =
     (let out =
            (if lflags AND LIST_TYPE_ORDERED K \<noteq> 0 then WriteString out ''</list>\<newline>''
             else if lflags AND LIST_TYPE_DEFINITION K \<noteq> 0 then
               WriteString out ''</t>\<newline></list>\<newline>''
             else WriteString out ''</list>\<newline>'')
      in if lflags AND LIST_INSIDE_LIST K = 0 then WriteString out ''</t>\<newline>'' else out)\<close>

definition List ::
  "('i, 'c) env \<Rightarrow> 'i rstate \<Rightarrow> 'i callback \<Rightarrow> int \<Rightarrow> int \<Rightarrow> panic + 'i rstate" where
  \<open>List K st text lflags start =
     (let (options, out) = st;
          marker = Len out;
          (i, options) = GetAndResetIAL options;
          s = renderIAL K i;
          out = list_open K lflags start s out;
          (b, options, out) = text (options, out)
      in if \<not> b then
           (case Truncate out marker of
              Inl e \<Rightarrow> Inl e
            | Inr out \<Rightarrow> Inr (options, out))
         else Inr (options, list_close K lflags out))\<close>

definition Paragraph ::
  "('i, 'c) env \<Rightarrow> 'i rstate \<Rightarrow> 'i callback \<Rightarrow> int \<Rightarrow> panic + 'i rstate" where
  \<open>Paragraph K st text lflags =
     (let (options, out) = st;
          marker = Len out;
          out = (if lflags AND LIST_TYPE_DEFINITION K = 0 then WriteString out ''<t>'' else out);
          (b, options, out) = text (options, out)
      in if \<not> b then
           (case Truncate out marker of
              Inl e \<Rightarrow> Inl e
            | Inr out \<Rightarrow> Inr (options, out))
         else
           (let out = (if lflags AND LIST_TYPE_DEFINITION K = 0 then WriteString out ''</t>\<newline>''
                       else out)
            in Inr (options, out)))\<close>

subsection \<open>Sections, document phases and the document wrapper\<close>

text \<open>
  The loop \<open>for i := options.sectionLevel; i > 0; i--\<close> of \<open>References\<close>,
  \<open>DocumentFooter\<close> and \<open>DocumentMatter\<close>, which also counts \<open>sectionLevel\<close> down.
\<close>

function close_sections :: "int \<Rightarrow> 'i rstate \<Rightarrow> 'i rstate" where
  "close_sections i (options, out) =
     (if i > 0 then
        close_sections (i - 1)
          (options\<lparr>sectionLevel := sectionLevel options - 1\<rparr>,
           WriteString out ''</section>\<newline>'')
      else (options, out))"
  by pat_completeness auto
termination
  by (relation "measure (\<lambda>(i, st). nat i)") auto

definition DocumentMatter :: "'i rstate \<Rightarrow> docLevel \<Rightarrow> 'i rstate" where
  \<open>DocumentMatter st matter =
     (let (options, out) = st;
          (options, out) = close_sections (sectionLevel options) (options, out);
          out =
            (case matter of
               DOC_FRONT_MATTER \<Rightarrow> out
             | DOC_MAIN_MATTER \<Rightarrow>
                 WriteString (WriteString out ''</front>\<newline>'') ''\<newline><middle>\<newline>''
             | DOC_BACK_MATTER \<Rightarrow>
                 WriteString (WriteString out ''\<newline></middle>\<newline>'') ''<back>\<newline>''
             | DOC_OTHER \<Rightarrow> out);
          options = options\<lparr>docLevel := matter\<rparr>
      in (options, out))\<close>

definition DocumentHeader :: "('i, 'c) env \<Rightarrow> 'i rstate \<Rightarrow> bool \<Rightarrow> 'i rstate" where
  \<open>DocumentHeader K st first =
     (let (options, out) = st
      in if \<not> first \<or> flags options AND XML_STANDALONE K = 0 then (options, out)
         else
           (let out = WriteString out ''<?xml version="1.0" encoding="UTF-8"?>\<newline>'';
                out = WriteString out (''<!DOCTYPE rfc SYSTEM '' @ [CHR 0x27] @ ''rfc2629.dtd''
                                         @ [CHR 0x27] @ '' [ ]>\<newline>'')
            in (options, out)))\<close>

definition DocumentFooter :: "('i, 'c) env \<Rightarrow> 'i rstate \<Rightarrow> bool \<Rightarrow> 'i rstate" where
  \<open>DocumentFooter K st first =
     (let (options, out) = st
      in if \<not> first \<or> flags options AND XML_STANDALONE K = 0 then (options, out)
         else
           (let (options, out) = close_sections (sectionLevel options) (options, out);
                out =
                  (case docLevel options of
                     DOC_FRONT_MATTER \<Rightarrow> WriteString out ''\<newline></front>\<newline>''
                   | DOC_MAIN_MATTER \<Rightarrow> WriteString out ''\<newline></middle>\<newline>''
                   | DOC_BACK_MATTER \<Rightarrow> WriteString out ''\<newline></back>\<newline>''
                   | DOC_OTHER \<Rightarrow> out);
                out = WriteString out ''</rfc>\<newline>''
            in (options, out)))\<close>

subsection \<open>The title block\<close>

text \<open>The loops \<open>for _, a := range Author\<close> and \<open>for _, k := range Keyword\<close>.\<close>

fun write_authors :: "author list \<Rightarrow> string \<Rightarrow> string" where
  \<open>write_authors [] out = out\<close>
| \<open>write_authors (a # as) out =
     (let out = WriteString out ''<author'';
          out = WriteString out ('' initials="'' @ Initials a @ ''"'');
          out = WriteString out ('' surname="'' @ Surname a @ ''"'');
          out = WriteString out ('' fullname="'' @ Fullname a @ ''">\<newline>'');
          out = WriteString out (''<organization>'' @ Organization a @ ''</organization>\<newline>'');
          out = WriteString out ''<address>\<newline>'';
          out = WriteString out (''<email>'' @ Email (Address a) @ ''</email>\<newline>'');
          out = WriteString out ''</address>\<newline>'';
          out = WriteString out ''</author>\<newline>''
      in write_authors as out)\<close>

fun write_keywords :: "string list \<Rightarrow> string \<Rightarrow> string" where
  \<open>write_keywords [] out = out\<close>
| \<open>write_keywords (k # ks) out =
     write_keywords ks (WriteString out (''<keyword>'' @ k @ ''</keyword>\<newline>''))\<close>

definition TitleBlockTOML :: "('i, 'c) env \<Rightarrow> 'i rstate \<Rightarrow> title \<Rightarrow> 'i rstate" where
  \<open>TitleBlockTOML K st block =
     (let (options, out) = st
      in if flags options AND XML_STANDALONE K = 0 then (options, out)
         else
           (let options = options\<lparr>titleBlock := Some block\<rparr>;
                out = WriteString out
                        (''<rfc ipr="'' @ Ipr block @ ''" category="'' @ Category block
                           @ ''" docName="'' @ DocName block @ ''">\<newline>'');
                out = WriteString out ''<front>\<newline>'';
                out = WriteString out (''<title abbrev="'' @ Abbrev block @ ''">'');
                out = WriteString out (Title block @ ''</title>\<newline>\<newline>'');
                out = write_authors (Author block) out;
                year = (if Year (Date block) > 0
                        then '' year="'' @ Itoa K (Year (Date block)) @ ''"'' else []);
                month = (if Month (Date block) > 0
                         then '' month="'' @ Month_String K (Month (Date block)) @ ''"'' else []);
                day = (if Day (Date block) > 0
                       then '' day="'' @ Itoa K (Day (Date block)) @ ''"'' else []);
                out = WriteString out (''<date'' @ year @ month @ day @ ''/>\<newline>\<newline>'');
                out = WriteString out (''<area>'' @ Area block @ ''</area>\<newline>'');
                out = WriteString out (''<workgroup>'' @ Workgroup block @ ''</workgroup>\<newline>'');
                out = write_keywords (Keyword block) out;
                out = WriteString out ''\<newline>''
            in (options, out)))\<close>

subsection \<open>References\<close>

text \<open>
  \<open>References\<close> ranges over the map of citations three times. Go visits every entry of a
  map once, in an order it does not specify, so each loop is modelled over the list of
  entries in the order in which that loop visits them; \<open>range_of\<close> says that such a list
  is a visit of the map \<open>citations\<close>.
\<close>

definition range_of :: "(string \<rightharpoonup> 'v) \<Rightarrow> (string \<times> 'v) list \<Rightarrow> bool" where
  "range_of citations kvs \<longleftrightarrow> distinct (map fst kvs) \<and> map_of kvs = citations"

text \<open>The counting loop: \<open>refi\<close> and \<open>refn\<close>.\<close>

fun count_refs :: "(string \<times> 'c citation_scheme) list \<Rightarrow> int \<times> int \<Rightarrow> int \<times> int" where
  "count_refs [] (refi, refn) = (refi, refn)"
| "count_refs ((k, c) # kvs) (refi, refn) =
     (let refi = (if typ c = CHR ''i'' then refi + 1 else refi);
          refn = (if typ c = CHR ''n'' then refn + 1 else refn)
      in count_refs kvs (refi, refn))"

text \<open>The two emitting loops, for the type \<open>t\<close> (\<open>'i'\<close> or \<open>'n'\<close>).\<close>

fun write_includes ::
  "('i, 'c) env \<Rightarrow> char \<Rightarrow> (string \<times> 'c citation_scheme) list \<Rightarrow> string \<Rightarrow> string" where
  \<open>write_includes K t [] out = out\<close>
| \<open>write_includes K t ((k, c) # kvs) out =
     (if typ c = t then
        (let f = filename c;
             f = (if f = [] then referenceFile K c else f)
         in write_includes K t kvs
              (WriteString out ([CHR 0x09] @ ''<?rfc include="'' @ f @ ''"?>\<newline>'')))
      else write_includes K t kvs out)\<close>

definition References ::
  "('i, 'c) env \<Rightarrow> 'i rstate \<Rightarrow> (string \<times> 'c citation_scheme) list
     \<Rightarrow> (string \<times> 'c citation_scheme) list \<Rightarrow> (string \<times> 'c citation_scheme) list \<Rightarrow> 'i rstate" where
  \<open>References K st visit1 visit2 visit3 =
     (let (options, out) = st
      in if flags options AND XML_STANDALONE K = 0 then (options, out)
         else
           (let (options, out) = close_sections (sectionLevel options) (options, out);
                out =
                  (case docLevel options of
                     DOC_FRONT_MATTER \<Rightarrow>
                       WriteString (WriteString out ''</front>\<newline>'') ''<back>\<newline>''
                   | DOC_MAIN_MATTER \<Rightarrow>
                       WriteString (WriteString out ''</middle>\<newline>'') ''<back>\<newline>''
                   | DOC_BACK_MATTER \<Rightarrow> out
                   | DOC_OTHER \<Rightarrow> out);
                options = options\<lparr>docLevel := DOC_BACK_MATTER\<rparr>;
                (refi, refn) = count_refs visit1 (0, 0);
                out =
                  (if refi + refn > 0 then
                     (let out =
                            (if refi > 0 then
                               (let out = WriteString out
                                            ''<references title="Informative References">\<newline>'';
                                    out = write_includes K (CHR ''i'') visit2 out
                                in WriteString out ''</references>\<newline>'')
                             else out)
                      in if refn > 0 then
                           (let out = WriteString out
                                        ''<references title="Normative References">\<newline>'';
                                out = write_includes K (CHR ''n'') visit3 out
                            in WriteString out ''</references>\<newline>'')
                         else out)
                   else out)
            in (options, out)))\<close>

subsection \<open>Notions used in the statements\<close>

text \<open>\<open>n\<close> section close markers in a row.\<close>

definition close_markers :: "nat \<Rightarrow> string" where
  "close_markers n = concat (replicate n ''</section>\<newline>'')"

text \<open>
  The bytes \<open>Header\<close> has written when it calls the title callback: the close markers,
  then the one open marker with the anchor.
\<close>

definition header_open :: "nat \<Rightarrow> string \<Rightarrow> string" where
  \<open>header_open n anchor =
     close_markers n @ ''\<newline><section anchor="'' @ anchor @ ''"'' @ '' title="''\<close>

text \<open>The reference-inclusion marker of one citation, with the fallback file name.\<close>

definition include_marker :: "('i, 'c) env \<Rightarrow> 'c citation_scheme \<Rightarrow> string" where
  \<open>include_marker K c =
     [CHR 0x09] @ ''<?rfc include="''
       @ (if filename c = [] then referenceFile K c else filename c) @ ''"?>\<newline>''\<close>

text \<open>
  A titled reference section with one inclusion marker for each of the entries \<open>kvs\<close>, or
  nothing when there is no entry.
\<close>

definition reference_section ::
  "('i, 'c) env \<Rightarrow> string \<Rightarrow> (string \<times> 'c citation_scheme) list \<Rightarrow> string" where
  \<open>reference_section K heading kvs =
     (if kvs = [] then []
      else ''<references title="'' @ heading @ ''">\<newline>''
             @ concat (map (\<lambda>(k, c). include_marker K c) kvs) @ ''</references>\<newline>'')\<close>

text \<open>The entries of a visit that have the type \<open>t\<close>, in the order of the visit.\<close>

definition of_type :: "char \<Rightarrow> (string \<times> 'c citation_scheme) list \<Rightarrow> (string \<times> 'c citation_scheme) list" where
  "of_type t kvs = filter (\<lambda>(k, c). typ c = t) kvs"

text \<open>The phase markers that \<open>References\<close> writes when it moves to the back matter.\<close>

definition phase_to_back :: "docLevel \<Rightarrow> string" where
  "phase_to_back d =
     (case d of
        DOC_FRONT_MATTER \<Rightarrow> ''</front>\<newline><back>\<newline>''
      | DOC_MAIN_MATTER \<Rightarrow> ''</middle>\<newline><back>\<newline>''
      | DOC_BACK_MATTER \<Rightarrow> []
      | DOC_OTHER \<Rightarrow> [])"

text \<open>
  The input of \<open>CommentHtml\<close> cut at the first \<open>-->\<close> that is found at a positive index.
\<close>

definition truncated :: "string \<Rightarrow> string" where
  \<open>truncated text = (let i = Index text ''-->'' in if i > 0 then take (nat i) text else text)\<close>

text \<open>
  The text before the first colon of a payload, the text after that colon, and a source
  without its one leading space.
\<close>

definition before_colon :: "string \<Rightarrow> string" where
  "before_colon p = takeWhile (\<lambda>c. c \<noteq> CHR '':'') p"

definition after_colon :: "string \<Rightarrow> string" where
  "after_colon p = drop (Suc (length (before_colon p))) p"

definition strip_space :: "string \<Rightarrow> string" where
  "strip_space source =
     (case source of [] \<Rightarrow> [] | c # cs \<Rightarrow> if c = CHR '' '' then cs else source)"

text \<open>
  The annotation container of a payload: with the source attribute when the first colon
  of the payload is among its first 20 bytes and something stands before it, unlabeled
  otherwise.
\<close>

definition annotation :: "string \<Rightarrow> string" where
  \<open>annotation p =
     (if CHR '':'' \<in> set (take 20 p) \<and> before_colon p \<noteq> [] then
        ''<t><cref source="'' @ strip_space (before_colon p) @ ''">'' @ after_colon p
          @ ''</cref></t>\<newline>''
      else if CHR '':'' \<in> set (take 20 p) then
        ''<t><cref>\<newline>'' @ after_colon p @ ''</cref></t>\<newline>''
      else ''<t><cref>\<newline>'' @ p @ ''</cref></t>\<newline>'')\<close>

subsection \<open>Example values\<close>

text \<open>
  Values for the examples below. The attribute lists of the examples are already text and
  are rendered by joining them; the flag constants are distinct bits; numbers are printed
  in decimal, and the format string has its first \<open>%d\<close> replaced by the number.
\<close>

fun decimal :: "nat \<Rightarrow> nat \<Rightarrow> string" where
  "decimal 0 n = []"
| "decimal (Suc fuel) n =
     (if n < 10 then [''0123456789'' ! n]
      else decimal fuel (n div 10) @ [''0123456789'' ! (n mod 10)])"

definition example_Itoa :: "int \<Rightarrow> string" where
  "example_Itoa i =
     (if i < 0 then CHR ''-'' # decimal (Suc (nat (- i))) (nat (- i))
      else decimal (Suc (nat i)) (nat i))"

fun example_Sprintf :: "string \<Rightarrow> int \<Rightarrow> string" where
  "example_Sprintf [] i = []"
| "example_Sprintf [c] i = [c]"
| "example_Sprintf (c # c' # cs) i =
     (if c = CHR ''%'' \<and> c' = CHR ''d'' then example_Itoa i @ cs
      else c # example_Sprintf (c' # cs) i)"

definition example_env :: "(string, unit) env" where
  "example_env =
     \<lparr>XML_STANDALONE = 1, LIST_TYPE_ORDERED = 1, LIST_TYPE_DEFINITION = 2, LIST_INSIDE_LIST = 8,
      renderIAL = concat, referenceFile = (\<lambda>c. ''reference.xml''),
      Sprintf = example_Sprintf, Itoa = example_Itoa, Month_String = (\<lambda>n. ''January'')\<rparr>"

definition example_options :: "string Xml2" where
  "example_options =
     \<lparr>flags = 1, sectionLevel = 0, docLevel = DOC_FRONT_MATTER, ial = [], titleBlock = None\<rparr>"

definition example_title :: title where
  "example_title =
     \<lparr>Ipr = ''trust200902'', Category = ''info'', DocName = ''draft-example-00'',
      Abbrev = ''Example'', Title = ''An Example'', Author = [],
      Date = \<lparr>Year = 2015, Month = 1, Day = 1\<rparr>,
      Area = ''General'', Workgroup = ''Example WG'', Keyword = []\<rparr>"

definition informative :: citation where
  "informative = \<lparr>typ = CHR ''i'', filename = []\<rparr>"

definition normative :: citation where
  "normative = \<lparr>typ = CHR ''n'', filename = ''reference.RFC.2119.xml''\<rparr>"

definition example_citations :: "string \<rightharpoonup> citation" where
  "example_citations = [''RFC7000'' \<mapsto> informative, ''RFC2119'' \<mapsto> normative]"

text \<open>A callback that produces nothing, and one that writes a word.\<close>

definition no_content :: "string callback" where
  "no_content st = (False, st)"

definition some_content :: "string callback" where
  "some_content st = (True, fst st, WriteString (snd st) ''text'')"

text \<open>A callback that empties the buffer (\<open>out.Reset()\<close>) and produces nothing.\<close>

definition reset_content :: "string callback" where
  "reset_content st = (False, fst st, [])"

section \<open>Properties\<close>

declare close_previous.simps [simp del]
declare close_sections.simps [simp del]
declare scan_source.simps [simp del]

subsection \<open>The section loops\<close>

lemma close_previous_markers:
  "close_previous i out = out @ close_markers (nat i)"
proof (induction i out rule: close_previous.induct)
  case (1 i out)
  show ?case
  proof (cases "i > 0")
    case True
    then have n: "nat i = Suc (nat (i - 1))" by simp
    have "close_previous i out = close_previous (i - 1) (WriteString out ''</section>\<newline>'')"
      using True by (subst close_previous.simps) simp
    also have "\<dots> = (out @ ''</section>\<newline>'') @ close_markers (nat (i - 1))"
      using 1 True by (simp only: WriteString_def)
    also have "\<dots> = out @ close_markers (nat i)"
      unfolding n close_markers_def by simp
    finally show ?thesis .
  next
    case False
    then show ?thesis by (subst close_previous.simps) (simp add: close_markers_def)
  qed
qed

lemma close_sections_markers:
  "close_sections i (options, out) =
     (options\<lparr>sectionLevel := sectionLevel options - int (nat i)\<rparr>, out @ close_markers (nat i))"
proof (induction i "(options, out)" arbitrary: options out rule: close_sections.induct)
  case (1 i options out)
  show ?case
  proof (cases "i > 0")
    case True
    then have n: "nat i = Suc (nat (i - 1))" by simp
    have "close_sections i (options, out) =
            close_sections (i - 1) (options\<lparr>sectionLevel := sectionLevel options - 1\<rparr>,
                                    WriteString out ''</section>\<newline>'')"
      using True by (subst close_sections.simps) simp
    also have "\<dots> = (options\<lparr>sectionLevel := sectionLevel options - 1 - int (nat (i - 1))\<rparr>,
                  (out @ ''</section>\<newline>'') @ close_markers (nat (i - 1)))"
      using 1[OF True] by (simp only: WriteString_def) simp
    also have "\<dots> = (options\<lparr>sectionLevel := sectionLevel options - int (nat i)\<rparr>,
                  out @ close_markers (nat i))"
      unfolding n close_markers_def by simp
    finally show ?thesis .
  next
    case False
    then show ?thesis by (subst close_sections.simps) (simp add: close_markers_def)
  qed
qed

lemma close_markers_2: "close_markers 2 = ''</section>\<newline></section>\<newline>''"
  by (simp add: close_markers_def numeral_2_eq_2)

subsection \<open>Headings\<close>

lemma go_int_add_left: "go_int (go_int x + y) = go_int (x + y)"
proof -
  have "(go_int x + y + 2 ^ 63) mod 2 ^ 64 = ((x + 2 ^ 63) mod 2 ^ 64 + y) mod 2 ^ 64"
    by (simp add: go_int_def)
  also have "\<dots> = (x + 2 ^ 63 + y) mod 2 ^ 64"
    by (rule mod_add_left_eq)
  also have "\<dots> = (x + y + 2 ^ 63) mod 2 ^ 64"
    by (simp only: add.assoc add.commute[of "2 ^ 63" y])
  finally show ?thesis
    by (simp add: go_int_def)
qed

lemma go_int_in_range:
  assumes "- (2 ^ 63) \<le> x" and "x < 2 ^ 63"
  shows "go_int x = x"
proof -
  have "0 \<le> x + 2 ^ 63" and "x + 2 ^ 63 < 2 ^ 64"
    using assms by simp_all
  then have "(x + 2 ^ 63) mod 2 ^ 64 = x + 2 ^ 63"
    by (rule mod_pos_pos_trivial)
  then show ?thesis
    by (simp add: go_int_def)
qed

lemma Header_unfold:
  assumes n: "n = (if level \<le> sectionLevel options
                   then nat (go_int (sectionLevel options - level + 1)) else 0)"
    and t: "text (options\<lparr>ial := []\<rparr>, out @ header_open n anchor) = (b, options', out')"
  shows "Header (options, out) text level anchor =
           (options'\<lparr>sectionLevel := level\<rparr>, out' @ ''\">\<newline>'')"
proof -
  have pre: "(if level \<le> sectionLevel options
              then close_previous (go_int (go_int (sectionLevel options - level) + 1)) out
              else out)
             = out @ close_markers n"
    using n by (simp add: close_previous_markers close_markers_def go_int_add_left)
  show ?thesis
    unfolding Header_def Let_def GetAndResetIAL_def prod.case pre
    using t by (simp add: WriteString_def header_open_def)
qed

lemma Header_case:
  "Header (options, out) text level anchor =
     (case text (options\<lparr>ial := []\<rparr>,
                 out @ header_open (if level \<le> sectionLevel options
                                    then nat (go_int (sectionLevel options - level + 1))
                                    else 0) anchor) of
        (b, options', out') \<Rightarrow> (options'\<lparr>sectionLevel := level\<rparr>, out' @ ''\">\<newline>''))"
proof -
  define n where
    "n = (if level \<le> sectionLevel options
          then nat (go_int (sectionLevel options - level + 1)) else 0)"
  obtain b options' out' where
    t: "text (options\<lparr>ial := []\<rparr>, out @ header_open n anchor) = (b, options', out')"
    by (metis prod_cases3)
  have "Header (options, out) text level anchor =
          (options'\<lparr>sectionLevel := level\<rparr>, out' @ ''\">\<newline>'')"
    using n_def t by (rule Header_unfold)
  then show ?thesis
    using t unfolding n_def by simp
qed

text \<open>
  Where the subtraction leaves the range of \<open>int\<close> the loop counter is negative and no close
  marker is written: at depth 0, for the level \<open>-2^63\<close>.
\<close>

lemma Header_wraps_around:
  "Header (example_options, ''<t>x</t>'') no_content (- (2 ^ 63)) ''intro'' =
     (example_options\<lparr>sectionLevel := - (2 ^ 63)\<rparr>,
      ''<t>x</t>\<newline><section anchor=\"intro\" title=\"\">\<newline>'')"
proof -
  have n: "(0::nat) = (if - (2 ^ 63) \<le> sectionLevel example_options
                       then nat (go_int (sectionLevel example_options - (- (2 ^ 63)) + 1)) else 0)"
    by (simp add: example_options_def go_int_def)
  have t: "no_content (example_options\<lparr>ial := []\<rparr>, ''<t>x</t>'' @ header_open 0 ''intro'')
             = (False, example_options, ''<t>x</t>'' @ header_open 0 ''intro'')"
    by (simp add: no_content_def example_options_def)
  have "Header (example_options, ''<t>x</t>'') no_content (- (2 ^ 63)) ''intro'' =
          (example_options\<lparr>sectionLevel := - (2 ^ 63)\<rparr>,
           (''<t>x</t>'' @ header_open 0 ''intro'') @ ''\">\<newline>'')"
    using n t by (rule Header_unfold)
  then show ?thesis
    by (simp add: header_open_def close_markers_def)
qed

text \<open>
  Claim C1. A call \<open>Header(out, text, level, id)\<close> first writes \<open>n\<close> section close markers,
  where \<open>n\<close> is the value of \<open>sectionLevel - level + 1\<close> if \<open>level \<le> sectionLevel\<close> and \<open>0\<close>
  otherwise, then one section open marker with the anchor \<open>id\<close>; it calls the title
  callback, closes the tag, and in all cases sets \<open>sectionLevel\<close> to \<open>level\<close>. The value is
  the one the program computes, in the arithmetic of \<open>int\<close>; it is the difference plus one
  itself whenever that is below \<open>2^63\<close>, as it is for every level from 1 at a depth from 0.
\<close>

theorem Header_section_markers:
  assumes "n = (if level \<le> sectionLevel options
                then nat (go_int (sectionLevel options - level + 1)) else 0)"
    and "text (options\<lparr>ial := []\<rparr>, out @ header_open n anchor) = (b, options', out')"
  shows "Header (options, out) text level anchor =
           (options'\<lparr>sectionLevel := level\<rparr>, out' @ ''\">\<newline>'')
         \<and> sectionLevel (fst (Header (options, out) text level anchor)) = level
         \<and> (level \<le> sectionLevel options \<and> sectionLevel options - level + 1 < 2 ^ 63 \<longrightarrow>
              int n = sectionLevel options - level + 1)
         \<and> (sectionLevel options < level \<longrightarrow> n = 0)"
proof -
  have h: "Header (options, out) text level anchor =
          (options'\<lparr>sectionLevel := level\<rparr>, out' @ ''\">\<newline>'')"
    using assms by (rule Header_unfold)
  have c: "int n = sectionLevel options - level + 1"
    if "level \<le> sectionLevel options \<and> sectionLevel options - level + 1 < 2 ^ 63"
  proof -
    have "go_int (sectionLevel options - level + 1) = sectionLevel options - level + 1"
      using that by (intro go_int_in_range) simp_all
    with that assms(1) show ?thesis by simp
  qed
  have z: "n = 0" if "sectionLevel options < level"
    using that assms(1) by simp
  show ?thesis
    using h c z by simp
qed

text \<open>
  An instance: at depth 3, a heading of level 2 closes two sections and opens one.
\<close>

theorem Header_section_markers_witness:
  "Header (example_options\<lparr>sectionLevel := 3\<rparr>, ''<t>x</t>'') some_content 2 ''intro'' =
     (example_options\<lparr>sectionLevel := 2\<rparr>,
      ''<t>x</t></section>\<newline></section>\<newline>\<newline><section anchor=\"intro\" title=\"text\">\<newline>'')"
proof -
  have n: "(2::nat) = (if (2::int) \<le> sectionLevel (example_options\<lparr>sectionLevel := 3\<rparr>)
                       then nat (go_int (sectionLevel (example_options\<lparr>sectionLevel := 3\<rparr>) - 2 + 1))
                       else 0)"
    by (simp add: go_int_def)
  have t: "some_content ((example_options\<lparr>sectionLevel := 3\<rparr>)\<lparr>ial := []\<rparr>,
                          ''<t>x</t>'' @ header_open 2 ''intro'')
             = (True, example_options\<lparr>sectionLevel := 3\<rparr>,
                ''<t>x</t>'' @ header_open 2 ''intro'' @ ''text'')"
    by (simp add: some_content_def example_options_def WriteString_def)
  show ?thesis
    using Header_section_markers[of 2 2 "example_options\<lparr>sectionLevel := 3\<rparr>" some_content
        "''<t>x</t>''" "''intro''", OF n t]
    by (simp add: header_open_def close_markers_2)
qed

text \<open>
  Claim C9, as the code has it. \<open>Header\<close> does not look at the boolean \<open>b\<close> that the title
  callback returns: whether it is true or false, nothing is rolled back, the tag is closed
  after what the callback left in the buffer, and \<open>sectionLevel\<close> becomes \<open>level\<close>. The buffer
  is strictly longer after the call than before whenever the callback leaves the buffer at
  least as long as it found it.
\<close>

theorem Header_never_rolled_back:
  assumes "n = (if level \<le> sectionLevel options
                then nat (go_int (sectionLevel options - level + 1)) else 0)"
    and "text (options\<lparr>ial := []\<rparr>, out @ header_open n anchor) = (b, options', out')"
    and "length (out @ header_open n anchor) \<le> length out'"
  shows "Header (options, out) text level anchor =
           (options'\<lparr>sectionLevel := level\<rparr>, out' @ ''\">\<newline>'')
         \<and> sectionLevel (fst (Header (options, out) text level anchor)) = level
         \<and> length out < length (snd (Header (options, out) text level anchor))"
proof -
  have "Header (options, out) text level anchor =
          (options'\<lparr>sectionLevel := level\<rparr>, out' @ ''\">\<newline>'')"
    using assms(1,2) by (rule Header_unfold)
  with assms(3) show ?thesis by (simp add: header_open_def)
qed

text \<open>An instance: a first heading whose title callback returns false.\<close>

theorem Header_never_rolled_back_witness:
  "Header (example_options, ''<t>x</t>'') no_content 1 ''intro'' =
     (example_options\<lparr>sectionLevel := 1\<rparr>,
      ''<t>x</t>\<newline><section anchor=\"intro\" title=\"\">\<newline>'')
   \<and> length ''<t>x</t>'' < length (snd (Header (example_options, ''<t>x</t>'') no_content 1 ''intro''))"
proof -
  have n: "(0::nat) = (if (1::int) \<le> sectionLevel example_options
                       then nat (go_int (sectionLevel example_options - 1 + 1)) else 0)"
    by (simp add: example_options_def)
  have t: "no_content (example_options\<lparr>ial := []\<rparr>, ''<t>x</t>'' @ header_open 0 ''intro'')
             = (False, example_options, ''<t>x</t>'' @ header_open 0 ''intro'')"
    by (simp add: no_content_def example_options_def)
  have l: "length (''<t>x</t>'' @ header_open 0 ''intro'')
             \<le> length (''<t>x</t>'' @ header_open 0 ''intro'')"
    by simp
  show ?thesis
    using Header_never_rolled_back[of 0 1 example_options no_content
        "''<t>x</t>''" "''intro''", OF n t l]
    by (simp add: header_open_def close_markers_def)
qed

text \<open>
  Claim C9 as it is stated fails for a title callback that cuts the buffer: \<open>Header\<close> adds
  the three bytes that close the tag to the empty buffer the callback left, and the buffer
  is shorter after the call than the eight bytes it held before.
\<close>

theorem Header_shorter_buffer:
  "Header (example_options, ''<t>x</t>'') reset_content 1 ''intro'' =
     (example_options\<lparr>sectionLevel := 1\<rparr>, ''\">\<newline>'')
   \<and> \<not> length ''<t>x</t>'' < length (snd (Header (example_options, ''<t>x</t>'') reset_content 1 ''intro''))"
proof -
  have n: "(0::nat) = (if (1::int) \<le> sectionLevel example_options
                       then nat (go_int (sectionLevel example_options - 1 + 1)) else 0)"
    by (simp add: example_options_def)
  have t: "reset_content (example_options\<lparr>ial := []\<rparr>, ''<t>x</t>'' @ header_open 0 ''intro'')
             = (False, example_options, [])"
    by (simp add: reset_content_def example_options_def)
  have "Header (example_options, ''<t>x</t>'') reset_content 1 ''intro'' =
          (example_options\<lparr>sectionLevel := 1\<rparr>, [] @ ''\">\<newline>'')"
    using n t by (rule Header_unfold)
  then show ?thesis by simp
qed

subsection \<open>Lists and paragraphs\<close>

lemma Truncate_within: "n \<le> length out \<Longrightarrow> Truncate out (int n) = Inr (take n out)"
  by (simp add: Truncate_def Len_def)

lemma List_unfold:
  assumes "text (options\<lparr>ial := []\<rparr>, list_open K lflags start (renderIAL K (ial options)) out)
             = (b, options', out')"
  shows "List K (options, out) text lflags start =
           (if b then Inr (options', list_close K lflags out')
            else (case Truncate out' (Len out) of
                    Inl e \<Rightarrow> Inl e
                  | Inr out'' \<Rightarrow> Inr (options', out'')))"
  using assms by (simp add: List_def GetAndResetIAL_def Let_def)

lemma Paragraph_unfold:
  assumes "text (options, if lflags AND LIST_TYPE_DEFINITION K = 0 then out @ ''<t>'' else out)
             = (b, options', out')"
  shows "Paragraph K (options, out) text lflags =
           (if b then
              Inr (options', if lflags AND LIST_TYPE_DEFINITION K = 0 then out' @ ''</t>\<newline>'' else out')
            else (case Truncate out' (Len out) of
                    Inl e \<Rightarrow> Inl e
                  | Inr out'' \<Rightarrow> Inr (options', out'')))"
proof (cases "lflags AND LIST_TYPE_DEFINITION K = 0")
  case True
  with assms show ?thesis
    by (simp add: Paragraph_def Let_def WriteString_def)
next
  case False
  with assms show ?thesis
    by (simp add: Paragraph_def Let_def WriteString_def)
qed

lemma List_case:
  "List K (options, out) text lflags start =
     (case text (options\<lparr>ial := []\<rparr>, list_open K lflags start (renderIAL K (ial options)) out) of
        (b, options', out') \<Rightarrow>
          if b then Inr (options', list_close K lflags out')
          else (case Truncate out' (Len out) of
                  Inl e \<Rightarrow> Inl e
                | Inr out'' \<Rightarrow> Inr (options', out'')))"
  by (simp add: List_def GetAndResetIAL_def Let_def split: prod.splits)

lemma Paragraph_case:
  "Paragraph K (options, out) text lflags =
     (case text (options, if lflags AND LIST_TYPE_DEFINITION K = 0 then out @ ''<t>'' else out) of
        (b, options', out') \<Rightarrow>
          if b then
            Inr (options', if lflags AND LIST_TYPE_DEFINITION K = 0 then out' @ ''</t>\<newline>'' else out')
          else (case Truncate out' (Len out) of
                  Inl e \<Rightarrow> Inl e
                | Inr out'' \<Rightarrow> Inr (options', out'')))"
proof -
  obtain b options' out' where
    t: "text (options, if lflags AND LIST_TYPE_DEFINITION K = 0 then out @ ''<t>'' else out)
          = (b, options', out')"
    by (metis prod_cases3)
  show ?thesis
    unfolding Paragraph_unfold[of "text", OF t] t by simp
qed

text \<open>
  Claim C5. When the content callback of \<open>List\<close>, or of \<open>Paragraph\<close>, returns false, the
  buffer is cut back to the length it had before the call: the block contributes no byte.
  A callback renders into the buffer, so it leaves at least the bytes that were there at
  the marker (with fewer, \<open>Truncate\<close> panics); what is kept is the first \<open>length out\<close> bytes.
\<close>

theorem rollback_on_no_content:
  "(text (options\<lparr>ial := []\<rparr>, list_open K lflags start (renderIAL K (ial options)) out)
        = (False, options', out')
      \<and> length out \<le> length out'
    \<longrightarrow> List K (options, out) text lflags start = Inr (options', take (length out) out')
        \<and> length (take (length out) out') = length out)
   \<and> (text (options, if lflags AND LIST_TYPE_DEFINITION K = 0 then out @ ''<t>'' else out)
        = (False, options', out')
      \<and> length out \<le> length out'
    \<longrightarrow> Paragraph K (options, out) text lflags = Inr (options', take (length out) out')
        \<and> length (take (length out) out') = length out)"
proof (intro conjI impI; elim conjE)
  assume t: "text (options\<lparr>ial := []\<rparr>, list_open K lflags start (renderIAL K (ial options)) out)
               = (False, options', out')"
    and l: "length out \<le> length out'"
  have "List K (options, out) text lflags start =
          (if False then Inr (options', list_close K lflags out')
           else (case Truncate out' (Len out) of
                   Inl e \<Rightarrow> Inl e
                 | Inr out'' \<Rightarrow> Inr (options', out'')))"
    using t by (rule List_unfold)
  then show "List K (options, out) text lflags start = Inr (options', take (length out) out')"
    using Truncate_within[OF l] by (simp add: Len_def)
  show "length (take (length out) out') = length out"
    using l by simp
next
  assume t: "text (options, if lflags AND LIST_TYPE_DEFINITION K = 0 then out @ ''<t>'' else out)
               = (False, options', out')"
    and l: "length out \<le> length out'"
  have "Paragraph K (options, out) text lflags =
          (if False then
             Inr (options', if lflags AND LIST_TYPE_DEFINITION K = 0 then out' @ ''</t>\<newline>'' else out')
           else (case Truncate out' (Len out) of
                   Inl e \<Rightarrow> Inl e
                 | Inr out'' \<Rightarrow> Inr (options', out'')))"
    using t by (rule Paragraph_unfold)
  then show "Paragraph K (options, out) text lflags = Inr (options', take (length out) out')"
    using Truncate_within[OF l] by (simp add: Len_def)
  show "length (take (length out) out') = length out"
    using l by simp
qed

lemma list_open_example:
  "list_open example_env 0 0 [] ''<t>x</t>'' = ''<t>x</t><t>\<newline><list style=\"symbols\">\<newline>''"
  by (simp add: list_open_def example_env_def WriteString_def)

text \<open>An instance: a list and a paragraph without content leave the buffer as it was.\<close>

theorem rollback_on_no_content_witness:
  "List example_env (example_options, ''<t>x</t>'') no_content 0 0 = Inr (example_options, ''<t>x</t>'')
   \<and> Paragraph example_env (example_options, ''<t>x</t>'') no_content 0 = Inr (example_options, ''<t>x</t>'')"
proof -
  have o: "example_options\<lparr>ial := []\<rparr> = example_options" "ial example_options = []"
    by (simp_all add: example_options_def)
  have r: "renderIAL example_env [] = []"
    by (simp add: example_env_def)
  have d: "(0::int) AND LIST_TYPE_DEFINITION example_env = 0"
    by (simp add: example_env_def)
  have t1: "no_content (example_options\<lparr>ial := []\<rparr>,
                        list_open example_env 0 0 (renderIAL example_env (ial example_options)) ''<t>x</t>'')
              = (False, example_options, ''<t>x</t><t>\<newline><list style=\"symbols\">\<newline>'')"
    by (simp add: no_content_def o r list_open_example)
  have t2: "no_content (example_options,
                        if (0::int) AND LIST_TYPE_DEFINITION example_env = 0
                        then ''<t>x</t>'' @ ''<t>'' else ''<t>x</t>'')
              = (False, example_options, ''<t>x</t><t>'')"
    by (simp add: no_content_def d)
  show ?thesis
    using rollback_on_no_content[of no_content example_options example_env 0 0 "''<t>x</t>''"
            example_options "''<t>x</t><t>\<newline><list style=\"symbols\">\<newline>''"]
          rollback_on_no_content[of no_content example_options example_env 0 0 "''<t>x</t>''"
            example_options "''<t>x</t><t>''"]
          t1 t2
    by simp
qed

subsection \<open>The attribute queue, block by block\<close>

lemma BlockCode_tag:
  "BlockCode K (options, out) text lang caption =
     (options\<lparr>ial := []\<rparr>,
      out @ ''\<newline><figure'' @ renderIAL K (ial options) @ ''><artwork>\<newline>'' @ text
        @ ''</artwork></figure>\<newline>'')"
  by (simp add: BlockCode_def GetAndResetIAL_def Let_def WriteString_def Write_def)

lemma Abstract_tag:
  "Abstract K (options, out) text =
     (options\<lparr>ial := []\<rparr>,
      out @ ''<abstract'' @ renderIAL K (ial options) @ ''>\<newline>'' @ text @ ''</abstract>\<newline>'')"
  by (simp add: Abstract_def GetAndResetIAL_def Let_def WriteString_def Write_def)

lemma Table_tag:
  "Table K (options, out) header body columnData caption =
     (options\<lparr>ial := []\<rparr>,
      out @ ''<texttable'' @ renderIAL K (ial options) @ ''>\<newline>'' @ header @ body
        @ ''</texttable>\<newline>'')"
  by (simp add: Table_def GetAndResetIAL_def Let_def WriteString_def Write_def)

lemma BlockQuote_tag:
  "BlockQuote (options, out) text =
     (options\<lparr>ial := []\<rparr>,
      out @ ''<t><list style=\"empty\">\<newline>'' @ text @ ''</list></t>\<newline>'')"
  by (simp add: BlockQuote_def GetAndResetIAL_def Let_def WriteString_def Write_def)

lemma list_open_tag:
  assumes "lflags AND LIST_TYPE_ORDERED K = 0 \<or> start \<le> 1"
  shows "list_open K lflags start s out =
           out @ (if lflags AND LIST_INSIDE_LIST K = 0 then ''<t>\<newline>'' else [])
             @ ''<list style=\"''
             @ (if lflags AND LIST_TYPE_ORDERED K \<noteq> 0 then ''numbers''
                else if lflags AND LIST_TYPE_DEFINITION K \<noteq> 0 then ''hanging''
                else ''symbols'')
             @ ''\"'' @ s @ ''>\<newline>''"
  using assms by (auto simp: list_open_def Let_def WriteString_def)

lemma list_open_start:
  assumes "lflags AND LIST_TYPE_ORDERED K \<noteq> 0 \<and> 1 < start"
  shows "list_open K lflags start s out =
           out @ (if lflags AND LIST_INSIDE_LIST K = 0 then ''<t>\<newline>'' else [])
             @ Sprintf K (''<list style=\"numbers\"'' @ s @ '' start=\"%d\">\<newline>'') start"
  using assms by (auto simp: list_open_def Let_def WriteString_def)

text \<open>
  Claim C2, as the code has it by design. \<open>BlockCode\<close>, \<open>Abstract\<close>, \<open>Table\<close> and \<open>List\<close>
  take the whole attribute queue, leaving it empty, before they write their opening tag,
  and the rendered attributes are part of that tag (of the format string of the tag, for
  an ordered list with a start value above 1). \<open>BlockQuote\<close> and \<open>Header\<close> empty the queue as
  well, but drop the attributes: their tags carry none (\<open>Header\<close> only clears the queue, as
  its comment says). Nothing is stated of \<open>Paragraph\<close>.
\<close>

theorem attribute_queue_by_block:
  "BlockCode K (options, out) text lang caption =
     (options\<lparr>ial := []\<rparr>,
      out @ ''\<newline><figure'' @ renderIAL K (ial options) @ ''><artwork>\<newline>'' @ text
        @ ''</artwork></figure>\<newline>'')
   \<and> Abstract K (options, out) text =
     (options\<lparr>ial := []\<rparr>,
      out @ ''<abstract'' @ renderIAL K (ial options) @ ''>\<newline>'' @ text @ ''</abstract>\<newline>'')
   \<and> Table K (options, out) header body columnData caption =
     (options\<lparr>ial := []\<rparr>,
      out @ ''<texttable'' @ renderIAL K (ial options) @ ''>\<newline>'' @ header @ body
        @ ''</texttable>\<newline>'')
   \<and> List K (options, out) cb lflags start =
     (case cb (options\<lparr>ial := []\<rparr>, list_open K lflags start (renderIAL K (ial options)) out) of
        (b, options', out') \<Rightarrow>
          if b then Inr (options', list_close K lflags out')
          else (case Truncate out' (Len out) of
                  Inl e \<Rightarrow> Inl e
                | Inr out'' \<Rightarrow> Inr (options', out'')))
   \<and> (lflags AND LIST_TYPE_ORDERED K = 0 \<or> start \<le> 1 \<longrightarrow>
        list_open K lflags start s out =
          out @ (if lflags AND LIST_INSIDE_LIST K = 0 then ''<t>\<newline>'' else [])
            @ ''<list style=\"''
            @ (if lflags AND LIST_TYPE_ORDERED K \<noteq> 0 then ''numbers''
               else if lflags AND LIST_TYPE_DEFINITION K \<noteq> 0 then ''hanging''
               else ''symbols'')
            @ ''\"'' @ s @ ''>\<newline>'')
   \<and> (lflags AND LIST_TYPE_ORDERED K \<noteq> 0 \<and> 1 < start \<longrightarrow>
        list_open K lflags start s out =
          out @ (if lflags AND LIST_INSIDE_LIST K = 0 then ''<t>\<newline>'' else [])
            @ Sprintf K (''<list style=\"numbers\"'' @ s @ '' start=\"%d\">\<newline>'') start)
   \<and> BlockQuote (options, out) text =
     (options\<lparr>ial := []\<rparr>,
      out @ ''<t><list style=\"empty\">\<newline>'' @ text @ ''</list></t>\<newline>'')
   \<and> Header (options, out) cb level anchor =
     (case cb (options\<lparr>ial := []\<rparr>,
               out @ header_open (if level \<le> sectionLevel options
                                  then nat (go_int (sectionLevel options - level + 1)) else 0) anchor) of
        (b, options', out') \<Rightarrow> (options'\<lparr>sectionLevel := level\<rparr>, out' @ ''\">\<newline>''))"
proof (intro conjI impI)
  show "BlockCode K (options, out) text lang caption =
     (options\<lparr>ial := []\<rparr>,
      out @ ''\<newline><figure'' @ renderIAL K (ial options) @ ''><artwork>\<newline>'' @ text
        @ ''</artwork></figure>\<newline>'')"
    by (rule BlockCode_tag)
  show "Abstract K (options, out) text =
     (options\<lparr>ial := []\<rparr>,
      out @ ''<abstract'' @ renderIAL K (ial options) @ ''>\<newline>'' @ text @ ''</abstract>\<newline>'')"
    by (rule Abstract_tag)
  show "Table K (options, out) header body columnData caption =
     (options\<lparr>ial := []\<rparr>,
      out @ ''<texttable'' @ renderIAL K (ial options) @ ''>\<newline>'' @ header @ body
        @ ''</texttable>\<newline>'')"
    by (rule Table_tag)
  show "List K (options, out) cb lflags start =
     (case cb (options\<lparr>ial := []\<rparr>, list_open K lflags start (renderIAL K (ial options)) out) of
        (b, options', out') \<Rightarrow>
          if b then Inr (options', list_close K lflags out')
          else (case Truncate out' (Len out) of
                  Inl e \<Rightarrow> Inl e
                | Inr out'' \<Rightarrow> Inr (options', out'')))"
    by (rule List_case)
  show "list_open K lflags start s out =
          out @ (if lflags AND LIST_INSIDE_LIST K = 0 then ''<t>\<newline>'' else [])
            @ ''<list style=\"''
            @ (if lflags AND LIST_TYPE_ORDERED K \<noteq> 0 then ''numbers''
               else if lflags AND LIST_TYPE_DEFINITION K \<noteq> 0 then ''hanging''
               else ''symbols'')
            @ ''\"'' @ s @ ''>\<newline>''"
    if "lflags AND LIST_TYPE_ORDERED K = 0 \<or> start \<le> 1"
    using that by (rule list_open_tag)
  show "list_open K lflags start s out =
          out @ (if lflags AND LIST_INSIDE_LIST K = 0 then ''<t>\<newline>'' else [])
            @ Sprintf K (''<list style=\"numbers\"'' @ s @ '' start=\"%d\">\<newline>'') start"
    if "lflags AND LIST_TYPE_ORDERED K \<noteq> 0 \<and> 1 < start"
    using that by (rule list_open_start)
  show "BlockQuote (options, out) text =
     (options\<lparr>ial := []\<rparr>,
      out @ ''<t><list style=\"empty\">\<newline>'' @ text @ ''</list></t>\<newline>'')"
    by (rule BlockQuote_tag)
  show "Header (options, out) cb level anchor =
     (case cb (options\<lparr>ial := []\<rparr>,
               out @ header_open (if level \<le> sectionLevel options
                                  then nat (go_int (sectionLevel options - level + 1)) else 0) anchor) of
        (b, options', out') \<Rightarrow> (options'\<lparr>sectionLevel := level\<rparr>, out' @ ''\">\<newline>''))"
    by (rule Header_case)
qed

lemma example_Sprintf_start:
  "Sprintf example_env ''<list style=\"numbers\" anchor=\"l1\" start=\"%d\">\<newline>'' 3 =
     ''<list style=\"numbers\" anchor=\"l1\" start=\"3\">\<newline>''"
proof -
  have "example_Itoa 3 = ''3''"
    by code_simp
  then show ?thesis
    by (simp add: example_env_def)
qed

text \<open>
  An instance: an unordered list, and an ordered list that starts at 3, with one queued
  attribute.
\<close>

theorem attribute_queue_by_block_witness:
  "List example_env (example_options\<lparr>ial := ['' anchor=\"l1\"'']\<rparr>, ''<t>x</t>'') some_content 0 0 =
     Inr (example_options,
          ''<t>x</t><t>\<newline><list style=\"symbols\" anchor=\"l1\">\<newline>text</list>\<newline></t>\<newline>'')
   \<and> List example_env (example_options\<lparr>ial := ['' anchor=\"l1\"'']\<rparr>, ''<t>x</t>'') some_content 1 3 =
     Inr (example_options,
          ''<t>x</t><t>\<newline><list style=\"numbers\" anchor=\"l1\" start=\"3\">\<newline>text</list>\<newline></t>\<newline>'')"
proof -
  have h1: "(0::int) AND LIST_TYPE_ORDERED example_env = 0 \<or> (0::int) \<le> 1"
    by simp
  have h2: "(1::int) AND LIST_TYPE_ORDERED example_env \<noteq> 0 \<and> (1::int) < 3"
    by (simp add: example_env_def)
  have f: "(0::int) AND LIST_INSIDE_LIST example_env = 0" "(0::int) AND LIST_TYPE_ORDERED example_env = 0"
    "(0::int) AND LIST_TYPE_DEFINITION example_env = 0"
    "(1::int) AND LIST_INSIDE_LIST example_env = 0" "(1::int) AND LIST_TYPE_ORDERED example_env \<noteq> 0"
    by (simp_all add: example_env_def)
  have r: "renderIAL example_env (ial (example_options\<lparr>ial := ['' anchor=\"l1\"'']\<rparr>)) = '' anchor=\"l1\"''"
    by (simp add: example_env_def)
  have o: "(example_options\<lparr>ial := ['' anchor=\"l1\"'']\<rparr>)\<lparr>ial := []\<rparr> = example_options"
    by (simp add: example_options_def)
  note inst0 = attribute_queue_by_block[where K = example_env
            and options = "example_options\<lparr>ial := ['' anchor=\"l1\"'']\<rparr>" and out = "''<t>x</t>''"
            and cb = some_content and lflags = 0 and start = 0 and s = "'' anchor=\"l1\"''"]
  note inst1 = attribute_queue_by_block[where K = example_env
            and options = "example_options\<lparr>ial := ['' anchor=\"l1\"'']\<rparr>" and out = "''<t>x</t>''"
            and cb = some_content and lflags = 1 and start = 3 and s = "'' anchor=\"l1\"''"]
  have open0: "list_open example_env 0 0 '' anchor=\"l1\"'' ''<t>x</t>'' =
                 ''<t>x</t><t>\<newline><list style=\"symbols\" anchor=\"l1\">\<newline>''"
    using inst0[THEN conjunct2, THEN conjunct2, THEN conjunct2, THEN conjunct2, THEN conjunct1] h1
    by (simp add: f)
  have open1: "list_open example_env 1 3 '' anchor=\"l1\"'' ''<t>x</t>'' =
                 ''<t>x</t><t>\<newline><list style=\"numbers\" anchor=\"l1\" start=\"3\">\<newline>''"
    using inst1[THEN conjunct2, THEN conjunct2, THEN conjunct2, THEN conjunct2, THEN conjunct2,
                THEN conjunct1] h2 example_Sprintf_start
    by (simp add: f)
  have list0: "List example_env (example_options\<lparr>ial := ['' anchor=\"l1\"'']\<rparr>, ''<t>x</t>'') some_content 0 0 =
     Inr (example_options,
          ''<t>x</t><t>\<newline><list style=\"symbols\" anchor=\"l1\">\<newline>text</list>\<newline></t>\<newline>'')"
    using inst0[THEN conjunct2, THEN conjunct2, THEN conjunct2, THEN conjunct1]
    unfolding r o open0
    by (simp add: some_content_def list_close_def WriteString_def f)
  have list1: "List example_env (example_options\<lparr>ial := ['' anchor=\"l1\"'']\<rparr>, ''<t>x</t>'') some_content 1 3 =
     Inr (example_options,
          ''<t>x</t><t>\<newline><list style=\"numbers\" anchor=\"l1\" start=\"3\">\<newline>text</list>\<newline></t>\<newline>'')"
    using inst1[THEN conjunct2, THEN conjunct2, THEN conjunct2, THEN conjunct1]
    unfolding r o open1
    by (simp add: some_content_def list_close_def WriteString_def f)
  show ?thesis
    using list0 list1 by (rule conjI)
qed

text \<open>
  Claim C2 as it is stated fails for \<open>Header\<close>: the queued attribute is taken from the queue
  and is not part of the section tag.
\<close>

theorem Header_drops_attributes:
  "Header (example_options\<lparr>ial := ['' class=\"x\"'']\<rparr>, []) some_content 1 ''intro'' =
     (example_options\<lparr>sectionLevel := 1\<rparr>,
      ''\<newline><section anchor=\"intro\" title=\"text\">\<newline>'')"
proof -
  have n: "(0::nat) = (if (1::int) \<le> sectionLevel (example_options\<lparr>ial := ['' class=\"x\"'']\<rparr>)
                       then nat (go_int (sectionLevel (example_options\<lparr>ial := ['' class=\"x\"'']\<rparr>) - 1 + 1))
                       else 0)"
    by (simp add: example_options_def)
  have t: "some_content ((example_options\<lparr>ial := ['' class=\"x\"'']\<rparr>)\<lparr>ial := []\<rparr>,
                          [] @ header_open 0 ''intro'')
             = (True, example_options, header_open 0 ''intro'' @ ''text'')"
    by (simp add: some_content_def example_options_def WriteString_def)
  have "Header (example_options\<lparr>ial := ['' class=\"x\"'']\<rparr>, []) some_content 1 ''intro'' =
          (example_options\<lparr>sectionLevel := 1\<rparr>, (header_open 0 ''intro'' @ ''text'') @ ''\">\<newline>'')"
    using n t by (rule Header_unfold)
  then show ?thesis
    by (simp add: header_open_def close_markers_def)
qed

text \<open>
  \<open>Paragraph\<close> is the one block renderer that never takes the queue: a queued attribute is
  still in the queue after the paragraph, for the block that follows, and the tag of the
  paragraph does not carry it.
\<close>

lemma Paragraph_keeps_attributes:
  "Paragraph example_env (example_options\<lparr>ial := ['' anchor=\"p1\"'']\<rparr>, []) some_content 0 =
     Inr (example_options\<lparr>ial := ['' anchor=\"p1\"'']\<rparr>, ''<t>text</t>\<newline>'')"
  by (simp add: Paragraph_def some_content_def example_env_def Let_def WriteString_def)

subsection \<open>References\<close>

lemma count_refs_length:
  "count_refs kvs (refi, refn) =
     (refi + int (length (of_type (CHR ''i'') kvs)), refn + int (length (of_type (CHR ''n'') kvs)))"
proof (induction kvs arbitrary: refi refn)
  case Nil
  then show ?case by (simp add: of_type_def)
next
  case (Cons kv kvs)
  obtain k c where kv: "kv = (k, c)" by (cases kv)
  show ?case
    unfolding kv by (simp add: Cons.IH of_type_def Let_def)
qed

lemma write_includes_markers:
  "write_includes K t kvs out = out @ concat (map (\<lambda>(k, c). include_marker K c) (of_type t kvs))"
proof (induction kvs arbitrary: out)
  case Nil
  then show ?case by (simp add: of_type_def)
next
  case (Cons kv kvs)
  obtain k c where kv: "kv = (k, c)" by (cases kv)
  show ?case
    unfolding kv
    by (simp add: Cons.IH of_type_def Let_def WriteString_def include_marker_def)
qed

lemma range_of_set:
  assumes "range_of citations kvs"
  shows "set kvs = {(k, c). citations k = Some c}"
  using assms by (auto simp: range_of_def)

lemma range_of_keys_of_type:
  assumes "range_of citations kvs"
  shows "fst ` set (of_type t kvs) = {k. \<exists>c. citations k = Some c \<and> typ c = t}"
proof -
  have "set (of_type t kvs) = {(k, c). citations k = Some c \<and> typ c = t}"
    using range_of_set[OF assms] by (auto simp: of_type_def)
  then show ?thesis by force
qed

lemma range_of_same_emptiness:
  assumes "range_of citations kvs" and "range_of citations kvs'"
  shows "of_type t kvs = [] \<longleftrightarrow> of_type t kvs' = []"
proof -
  have "set (of_type t kvs) = set (of_type t kvs')"
    using range_of_set[OF assms(1)] range_of_set[OF assms(2)] by (auto simp: of_type_def)
  then show ?thesis by (metis set_empty)
qed

lemma distinct_keys_of_type:
  assumes "range_of citations kvs"
  shows "distinct (map fst (of_type t kvs))"
  using assms unfolding range_of_def of_type_def by (simp add: distinct_map_filter)

lemma References_unfold:
  assumes on: "flags options AND XML_STANDALONE K \<noteq> 0"
    and e2: "of_type (CHR ''i'') visit1 = [] \<longleftrightarrow> of_type (CHR ''i'') visit2 = []"
    and e3: "of_type (CHR ''n'') visit1 = [] \<longleftrightarrow> of_type (CHR ''n'') visit3 = []"
  shows "References K (options, out) visit1 visit2 visit3 =
           (options\<lparr>sectionLevel := sectionLevel options - int (nat (sectionLevel options)),
                    docLevel := DOC_BACK_MATTER\<rparr>,
            out @ close_markers (nat (sectionLevel options)) @ phase_to_back (docLevel options)
              @ reference_section K ''Informative References'' (of_type (CHR ''i'') visit2)
              @ reference_section K ''Normative References'' (of_type (CHR ''n'') visit3))"
proof -
  have refi: "0 < int (length (of_type (CHR ''i'') visit1)) \<longleftrightarrow> of_type (CHR ''i'') visit2 \<noteq> []"
    using e2 by simp
  have refn: "0 < int (length (of_type (CHR ''n'') visit1)) \<longleftrightarrow> of_type (CHR ''n'') visit3 \<noteq> []"
    using e3 by simp
  have sum: "0 < int (length (of_type (CHR ''i'') visit1)) + int (length (of_type (CHR ''n'') visit1))
               \<longleftrightarrow> of_type (CHR ''i'') visit2 \<noteq> [] \<or> of_type (CHR ''n'') visit3 \<noteq> []"
  proof -
    have "0 < int (length (of_type (CHR ''i'') visit1)) + int (length (of_type (CHR ''n'') visit1))
            \<longleftrightarrow> of_type (CHR ''i'') visit1 \<noteq> [] \<or> of_type (CHR ''n'') visit1 \<noteq> []"
      by (cases "of_type (CHR ''i'') visit1"; cases "of_type (CHR ''n'') visit1") simp_all
    then show ?thesis using e2 e3 by simp
  qed
  show ?thesis
    using on
    unfolding References_def Let_def prod.case close_sections_markers count_refs_length
      write_includes_markers
    by (cases "docLevel options")
       (simp_all add: phase_to_back_def reference_section_def WriteString_def refi refn sum
                 del: of_nat_add of_nat_0_less_iff)
qed

text \<open>
  Claim C6, as the code has it. In standalone mode, and with the three loops of
  \<open>References\<close> each visiting the map \<open>citations\<close>, the output is the flushed sections, the
  phase markers, then the section titled Informative References with one inclusion marker
  for each citation of type \<open>'i'\<close> and the section titled Normative References with one for
  each citation of type \<open>'n'\<close>; a section is there only if its group is not empty. The keys
  of the entries written are, without repetition, the recorded targets of type \<open>'i'\<close> and
  \<open>'n'\<close>. The file name written is the citation's own, or \<open>referenceFile\<close> of the citation when
  that is empty. With no citation recorded, no reference section is written.
\<close>

theorem References_groups:
  assumes "flags options AND XML_STANDALONE K \<noteq> 0"
    and "range_of citations visit1" and "range_of citations visit2" and "range_of citations visit3"
  shows "snd (References K (options, out) visit1 visit2 visit3) =
           out @ close_markers (nat (sectionLevel options)) @ phase_to_back (docLevel options)
             @ reference_section K ''Informative References'' (of_type (CHR ''i'') visit2)
             @ reference_section K ''Normative References'' (of_type (CHR ''n'') visit3)
       \<and> fst ` set (of_type (CHR ''i'') visit2) = {k. \<exists>c. citations k = Some c \<and> typ c = CHR ''i''}
       \<and> fst ` set (of_type (CHR ''n'') visit3) = {k. \<exists>c. citations k = Some c \<and> typ c = CHR ''n''}
       \<and> fst ` set (of_type (CHR ''i'') visit2) \<union> fst ` set (of_type (CHR ''n'') visit3) =
           {k. \<exists>c. citations k = Some c \<and> (typ c = CHR ''i'' \<or> typ c = CHR ''n'')}
       \<and> distinct (map fst (of_type (CHR ''i'') visit2))
       \<and> distinct (map fst (of_type (CHR ''n'') visit3))
       \<and> (citations = Map.empty \<longrightarrow>
            snd (References K (options, out) visit1 visit2 visit3) =
              out @ close_markers (nat (sectionLevel options)) @ phase_to_back (docLevel options))"
proof -
  have e2: "of_type (CHR ''i'') visit1 = [] \<longleftrightarrow> of_type (CHR ''i'') visit2 = []"
    using assms(2,3) by (rule range_of_same_emptiness)
  have e3: "of_type (CHR ''n'') visit1 = [] \<longleftrightarrow> of_type (CHR ''n'') visit3 = []"
    using assms(2,4) by (rule range_of_same_emptiness)
  have out: "snd (References K (options, out) visit1 visit2 visit3) =
           out @ close_markers (nat (sectionLevel options)) @ phase_to_back (docLevel options)
             @ reference_section K ''Informative References'' (of_type (CHR ''i'') visit2)
             @ reference_section K ''Normative References'' (of_type (CHR ''n'') visit3)"
    using References_unfold[OF assms(1) e2 e3, of out] by simp
  have none: "visit2 = [] \<and> visit3 = []" if "citations = Map.empty"
    using that assms(3,4) range_of_set[of citations visit2] range_of_set[of citations visit3]
    by simp
  have last: "citations = Map.empty \<longrightarrow>
            snd (References K (options, out) visit1 visit2 visit3) =
              out @ close_markers (nat (sectionLevel options)) @ phase_to_back (docLevel options)"
  proof
    assume "citations = Map.empty"
    then have "visit2 = []" and "visit3 = []" using none by simp_all
    then have "reference_section K ''Informative References'' (of_type (CHR ''i'') visit2) = []"
      and "reference_section K ''Normative References'' (of_type (CHR ''n'') visit3) = []"
      by (simp_all add: of_type_def reference_section_def)
    with out show "snd (References K (options, out) visit1 visit2 visit3) =
              out @ close_markers (nat (sectionLevel options)) @ phase_to_back (docLevel options)"
      by (simp only: append_Nil2)
  qed
  have ki: "fst ` set (of_type (CHR ''i'') visit2) = {k. \<exists>c. citations k = Some c \<and> typ c = CHR ''i''}"
    using assms(3) by (rule range_of_keys_of_type)
  have kn: "fst ` set (of_type (CHR ''n'') visit3) = {k. \<exists>c. citations k = Some c \<and> typ c = CHR ''n''}"
    using assms(4) by (rule range_of_keys_of_type)
  have both: "fst ` set (of_type (CHR ''i'') visit2) \<union> fst ` set (of_type (CHR ''n'') visit3) =
           {k. \<exists>c. citations k = Some c \<and> (typ c = CHR ''i'' \<or> typ c = CHR ''n'')}"
    unfolding ki kn by auto
  show ?thesis
    using out ki kn both distinct_keys_of_type[OF assms(3)] distinct_keys_of_type[OF assms(4)] last
    by (intro conjI)
qed

lemma example_visits:
  "range_of example_citations [(''RFC7000'', informative), (''RFC2119'', normative)]"
  "range_of example_citations [(''RFC2119'', normative), (''RFC7000'', informative)]"
  by (auto simp: range_of_def example_citations_def fun_eq_iff)

text \<open>
  An instance: one informative citation without file name and one normative citation with
  one, visited in different orders by the three loops, in the front matter.
\<close>

theorem References_groups_witness:
  "snd (References example_env (example_options, ''<t>x</t>'')
          [(''RFC7000'', informative), (''RFC2119'', normative)]
          [(''RFC2119'', normative), (''RFC7000'', informative)]
          [(''RFC7000'', informative), (''RFC2119'', normative)]) =
     ''<t>x</t></front>\<newline><back>\<newline>''
       @ ''<references title=\"Informative References\">\<newline>''
       @ [CHR 0x09] @ ''<?rfc include=\"reference.xml\"?>\<newline></references>\<newline>''
       @ ''<references title=\"Normative References\">\<newline>''
       @ [CHR 0x09] @ ''<?rfc include=\"reference.RFC.2119.xml\"?>\<newline></references>\<newline>''"
proof -
  have on: "flags example_options AND XML_STANDALONE example_env \<noteq> 0"
    by (simp add: example_options_def example_env_def)
  have i: "of_type (CHR ''i'') [(''RFC2119'', normative), (''RFC7000'', informative)]
             = [(''RFC7000'', informative)]"
    by (simp add: of_type_def informative_def normative_def)
  have n: "of_type (CHR ''n'') [(''RFC7000'', informative), (''RFC2119'', normative)]
             = [(''RFC2119'', normative)]"
    by (simp add: of_type_def informative_def normative_def)
  have m: "include_marker example_env informative
             = [CHR 0x09] @ ''<?rfc include=\"reference.xml\"?>\<newline>''"
    "include_marker example_env normative
             = [CHR 0x09] @ ''<?rfc include=\"reference.RFC.2119.xml\"?>\<newline>''"
    by (simp_all add: include_marker_def informative_def normative_def example_env_def)
  have o: "sectionLevel example_options = 0" "docLevel example_options = DOC_FRONT_MATTER"
    by (simp_all add: example_options_def)
  show ?thesis
    using References_groups[OF on example_visits(1) example_visits(2) example_visits(1),
            of "''<t>x</t>''"]
    by (simp add: i n m o reference_section_def phase_to_back_def close_markers_def)
qed

text \<open>
  Claim C6 as it is stated fails when the renderer is not in standalone mode: a citation
  is recorded, and \<open>References\<close> writes nothing.
\<close>

theorem References_not_standalone:
  "References example_env (example_options\<lparr>flags := 0\<rparr>, [])
     [(''RFC7000'', informative)] [(''RFC7000'', informative)] [(''RFC7000'', informative)]
   = (example_options\<lparr>flags := 0\<rparr>, [])"
  by (simp add: References_def example_env_def)

subsection \<open>Document phases\<close>

lemma DocumentMatter_markers:
  "DocumentMatter (options, out) matter =
     (options\<lparr>sectionLevel := sectionLevel options - int (nat (sectionLevel options)),
              docLevel := matter\<rparr>,
      out @ close_markers (nat (sectionLevel options))
        @ (case matter of
             DOC_FRONT_MATTER \<Rightarrow> []
           | DOC_MAIN_MATTER \<Rightarrow> ''</front>\<newline>\<newline><middle>\<newline>''
           | DOC_BACK_MATTER \<Rightarrow> ''\<newline></middle>\<newline><back>\<newline>''
           | DOC_OTHER \<Rightarrow> []))"
  by (cases matter) (simp_all add: DocumentMatter_def close_sections_markers WriteString_def)

text \<open>
  The other path into the back matter: from the front matter, \<open>References\<close> closes the
  front container and opens the back container; in the back matter already, it writes no
  phase marker, closes the open sections and leaves \<open>sectionLevel\<close> at 0.
\<close>

lemma References_front_to_back:
  assumes "flags options AND XML_STANDALONE K \<noteq> 0" and "docLevel options = DOC_FRONT_MATTER"
  shows "References K (options, out) [] [] [] =
           (options\<lparr>sectionLevel := sectionLevel options - int (nat (sectionLevel options)),
                    docLevel := DOC_BACK_MATTER\<rparr>,
            out @ close_markers (nat (sectionLevel options)) @ ''</front>\<newline><back>\<newline>'')"
  using References_unfold[OF assms(1), of "[]" "[]" "[]" out] assms(2)
  by (simp add: of_type_def reference_section_def phase_to_back_def)

lemma References_in_back:
  assumes "flags options AND XML_STANDALONE K \<noteq> 0" and "docLevel options = DOC_BACK_MATTER"
    and "0 \<le> sectionLevel options"
  shows "References K (options, out) [] [] [] =
           (options\<lparr>sectionLevel := 0, docLevel := DOC_BACK_MATTER\<rparr>,
            out @ close_markers (nat (sectionLevel options)))"
  using References_unfold[OF assms(1), of "[]" "[]" "[]" out] assms(2,3)
  by (simp add: of_type_def reference_section_def phase_to_back_def)

text \<open>
  Claim C3. \<open>DocumentMatter\<close> chooses its markers from the phase it moves to and never looks
  at the current one: called for the back matter while in the front matter, it writes the
  closing marker of the middle container, which was never opened, and leaves the front
  container open.
\<close>

theorem DocumentMatter_front_to_back:
  "DocumentMatter (example_options, ''<front>'') DOC_BACK_MATTER =
     (example_options\<lparr>docLevel := DOC_BACK_MATTER\<rparr>,
      ''<front>\<newline></middle>\<newline><back>\<newline>'')"
  by (simp add: DocumentMatter_markers example_options_def close_markers_def)

text \<open>
  Claim C4. For the same reason, \<open>DocumentMatter\<close> called for the main matter while already
  in the main matter writes the markers of the move from front to main once more.
\<close>

theorem DocumentMatter_main_again:
  "DocumentMatter (example_options\<lparr>docLevel := DOC_MAIN_MATTER\<rparr>, ''<middle>'') DOC_MAIN_MATTER =
     (example_options\<lparr>docLevel := DOC_MAIN_MATTER\<rparr>,
      ''<middle></front>\<newline>\<newline><middle>\<newline>'')"
  by (simp add: DocumentMatter_markers example_options_def close_markers_def)

subsection \<open>Standalone mode\<close>

text \<open>
  Claim C7. With the flag \<open>XML_STANDALONE\<close> off, \<open>DocumentHeader\<close>, \<open>DocumentFooter\<close>,
  \<open>TitleBlockTOML\<close> and \<open>References\<close> write nothing and leave the renderer as it is.
\<close>

theorem standalone_off_no_wrapper:
  assumes "flags options AND XML_STANDALONE K = 0"
  shows "DocumentHeader K (options, out) first = (options, out)
       \<and> DocumentFooter K (options, out) first = (options, out)
       \<and> TitleBlockTOML K (options, out) block = (options, out)
       \<and> References K (options, out) visit1 visit2 visit3 = (options, out)"
proof (intro conjI)
  show "DocumentHeader K (options, out) first = (options, out)"
    using assms by (simp add: DocumentHeader_def)
  show "DocumentFooter K (options, out) first = (options, out)"
    using assms by (simp add: DocumentFooter_def)
  show "TitleBlockTOML K (options, out) block = (options, out)"
    using assms by (simp add: TitleBlockTOML_def)
  show "References K (options, out) visit1 visit2 visit3 = (options, out)"
    using assms by (simp add: References_def)
qed

text \<open>An instance: the four calls on a buffer that holds one paragraph.\<close>

theorem standalone_off_no_wrapper_witness:
  "DocumentHeader example_env (example_options\<lparr>flags := 0\<rparr>, ''<t>x</t>'') True
     = (example_options\<lparr>flags := 0\<rparr>, ''<t>x</t>'')
   \<and> DocumentFooter example_env (example_options\<lparr>flags := 0\<rparr>, ''<t>x</t>'') True
     = (example_options\<lparr>flags := 0\<rparr>, ''<t>x</t>'')
   \<and> TitleBlockTOML example_env (example_options\<lparr>flags := 0\<rparr>, ''<t>x</t>'') example_title
     = (example_options\<lparr>flags := 0\<rparr>, ''<t>x</t>'')
   \<and> References example_env (example_options\<lparr>flags := 0\<rparr>, ''<t>x</t>'')
       [(''RFC2119'', normative)] [(''RFC2119'', normative)] [(''RFC2119'', normative)]
     = (example_options\<lparr>flags := 0\<rparr>, ''<t>x</t>'')"
proof -
  have h: "flags (example_options\<lparr>flags := 0\<rparr>) AND XML_STANDALONE example_env = 0"
    by (simp add: example_env_def)
  show ?thesis
    using standalone_off_no_wrapper[OF h] by simp
qed

subsection \<open>Comments\<close>

lemma HasPrefix_length: "HasPrefix s p \<Longrightarrow> length p \<le> length s"
  by (induction s p rule: HasPrefix.induct) simp_all

lemma Index_found:
  "0 \<le> Index s sep \<Longrightarrow> HasPrefix (drop (nat (Index s sep)) s) sep \<and> nat (Index s sep) \<le> length s"
proof (induction s)
  case Nil
  then show ?case by (cases sep) (simp_all split: if_splits)
next
  case (Cons c s)
  show ?case
  proof (cases "HasPrefix (c # s) sep")
    case True
    then show ?thesis by simp
  next
    case False
    with Cons.prems have j: "0 \<le> Index s sep" and e: "Index (c # s) sep = Index s sep + 1"
      by (simp_all add: Let_def split: if_splits)
    have n: "nat (Index s sep + 1) = Suc (nat (Index s sep))"
      using j by simp
    show ?thesis
      using Cons.IH[OF j] unfolding e n by simp
  qed
qed

lemma Index_le_length: "Index s sep \<le> int (length s)"
proof (cases "0 \<le> Index s sep")
  case True
  then have "nat (Index s sep) \<le> length s" using Index_found by blast
  with True show ?thesis by linarith
next
  case False
  then show ?thesis by simp
qed

lemma comment_cut_truncated: "comment_cut text = Inr (truncated text)"
  using Index_le_length[of "text" "''-->''"]
  by (simp add: comment_cut_def truncated_def slice_to_def Let_def)

lemma comment_payload_cases:
  "comment_payload text =
     (if length (truncated text) < 4 then Inl SliceBoundsOutOfRange
      else Inr (drop 4 (truncated text)))"
  by (simp add: comment_payload_def comment_cut_truncated slice_from_def)

lemma scan_source_loop:
  assumes "i \<le> l" and "l \<le> length p" and "\<forall>j<i. p ! j \<noteq> CHR '':''"
  shows "scan_source (int i) (int l) p =
           Inr (if CHR '':'' \<in> set (take l p) then (before_colon p, after_colon p) else ([], p))"
  using assms
proof (induction "l - i" arbitrary: i)
  case 0
  then have il: "i = l" by simp
  have "CHR '':'' \<notin> set (take l p)"
    using "0.prems"(2,3) unfolding il by (auto simp: in_set_conv_nth)
  then show ?case
    unfolding il by (subst scan_source.simps) simp
next
  case (Suc d)
  then have lt: "i < l" and ip: "i < length p" by simp_all
  show ?case
  proof (cases "p ! i = CHR '':''")
    case True
    have b: "before_colon p = take i p"
      unfolding before_colon_def
      using Suc.prems(3) ip True by (intro takeWhile_eq_take_P_nth) simp_all
    have "p ! i \<in> set (take l p)"
      using lt ip Suc.prems(2) by (metis in_set_conv_nth length_take min.absorb2 nth_take)
    then have m: "CHR '':'' \<in> set (take l p)" using True by simp
    have la: "length (before_colon p) = i" using b ip by simp
    have n: "nat (int i + 1) = Suc i" by simp
    show ?thesis
      using lt ip True m
      by (subst scan_source.simps)
         (simp add: index_at_def slice_to_def slice_from_def b after_colon_def la n)
  next
    case False
    have inv: "\<forall>j<Suc i. p ! j \<noteq> CHR '':''"
      using Suc.prems(3) False by (simp add: less_Suc_eq)
    have d: "d = l - Suc i" using Suc.hyps(2) by simp
    have "scan_source (int (Suc i)) (int l) p =
            Inr (if CHR '':'' \<in> set (take l p) then (before_colon p, after_colon p) else ([], p))"
      using Suc.hyps(1)[OF d _ Suc.prems(2) inv] lt by simp
    moreover have "int (Suc i) = int i + 1" by simp
    ultimately have next_step: "scan_source (int i + 1) (int l) p =
            Inr (if CHR '':'' \<in> set (take l p) then (before_colon p, after_colon p) else ([], p))"
      by (simp only:)
    have "scan_source (int i) (int l) p = scan_source (int i + 1) (int l) p"
      using lt ip False by (subst scan_source.simps) (simp add: index_at_def)
    with next_step show ?thesis by (simp only:)
  qed
qed

lemma scan_source_window:
  "scan_source 0 (if Len p > 20 then 20 else Len p) p =
     Inr (if CHR '':'' \<in> set (take 20 p) then (before_colon p, after_colon p) else ([], p))"
proof (cases "length p > 20")
  case True
  have "scan_source (int 0) (int 20) p =
          Inr (if CHR '':'' \<in> set (take 20 p) then (before_colon p, after_colon p) else ([], p))"
    using True by (intro scan_source_loop) simp_all
  with True show ?thesis by (simp add: Len_def)
next
  case False
  have "scan_source (int 0) (int (length p)) p =
          Inr (if CHR '':'' \<in> set (take (length p) p) then (before_colon p, after_colon p) else ([], p))"
    by (intro scan_source_loop) simp_all
  with False show ?thesis by (simp add: Len_def)
qed

lemma CommentHtml_payload:
  assumes "comment_payload text = Inr p"
  shows "CommentHtml (options, out) text =
           Inr (options,
                if CHR '':'' \<in> set (take 20 p) then
                  (if before_colon p \<noteq> [] then
                     out @ ''<t><cref source=\"'' @ strip_space (before_colon p) @ ''\">''
                       @ after_colon p @ ''</cref></t>\<newline>''
                   else out @ ''<t><cref>\<newline>'' @ after_colon p @ ''</cref></t>\<newline>'')
                else out @ ''<t><cref>\<newline>'' @ p @ ''</cref></t>\<newline>'')"
proof (cases "before_colon p")
  case Nil
  then show ?thesis
    using assms
    by (simp add: CommentHtml_def Let_def scan_source_window WriteString_def Write_def)
next
  case (Cons c cs)
  then show ?thesis
    using assms
    by (simp add: CommentHtml_def Let_def scan_source_window WriteString_def Write_def
                  index_at_def slice_from_def strip_space_def)
qed


lemma payload_example:
  "comment_payload ''<!-- rfc1234: some note text-->'' = Inr '' rfc1234: some note text''"
  by (simp add: comment_payload_cases truncated_def)

lemma payload_colon_first: "comment_payload ''<!--: a note-->'' = Inr '': a note''"
  by (simp add: comment_payload_cases truncated_def)

text \<open>
  Claim C8, as the code has it. The payload is the input cut at the terminator and without
  its first four bytes. If its first colon is among its first 20 bytes and is not its first
  byte, the text before the colon, without one leading space, is the source attribute and
  the text after the colon is the body. If the payload starts with the colon, the source
  is empty and no source attribute is written: the text after the colon is rendered as
  unlabeled annotation. If there is no colon among the first 20 bytes, the whole payload is
  rendered as unlabeled annotation.
\<close>

theorem CommentHtml_source:
  assumes "comment_payload text = Inr p"
  shows "(CHR '':'' \<in> set (take 20 p) \<and> before_colon p \<noteq> [] \<longrightarrow>
            CommentHtml (options, out) text =
              Inr (options, out @ ''<t><cref source=\"'' @ strip_space (before_colon p) @ ''\">''
                              @ after_colon p @ ''</cref></t>\<newline>''))
       \<and> (CHR '':'' \<in> set (take 20 p) \<and> before_colon p = [] \<longrightarrow>
            CommentHtml (options, out) text =
              Inr (options, out @ ''<t><cref>\<newline>'' @ after_colon p @ ''</cref></t>\<newline>''))
       \<and> (CHR '':'' \<notin> set (take 20 p) \<longrightarrow>
            CommentHtml (options, out) text =
              Inr (options, out @ ''<t><cref>\<newline>'' @ p @ ''</cref></t>\<newline>''))"
  using CommentHtml_payload[OF assms, of options out] by simp

text \<open>
  An instance, the scenario of the specification: the payload \<open>" rfc1234: some note text"\<close>
  gives the source \<open>"rfc1234"\<close> and the text \<open>" some note text"\<close>.
\<close>

theorem CommentHtml_source_witness:
  "CommentHtml (example_options, []) ''<!-- rfc1234: some note text-->'' =
     Inr (example_options, ''<t><cref source=\"rfc1234\"> some note text</cref></t>\<newline>'')"
proof -
  have b: "before_colon '' rfc1234: some note text'' = '' rfc1234''"
    by (simp add: before_colon_def)
  have a: "after_colon '' rfc1234: some note text'' = '' some note text''"
    by (simp add: after_colon_def b)
  have s: "strip_space '' rfc1234'' = ''rfc1234''"
    by (simp add: strip_space_def)
  have c: "CHR '':'' \<in> set (take 20 '' rfc1234: some note text'')"
    by simp
  show ?thesis
    using CommentHtml_source[OF payload_example, of example_options "[]"] c
    by (simp only: b a s) simp
qed

text \<open>
  Claim C8 as it is stated fails for a payload that starts with a colon: the colon is
  within the first 20 bytes, and no source attribute is rendered.
\<close>

theorem CommentHtml_colon_first:
  "CommentHtml (example_options, []) ''<!--: a note-->'' =
     Inr (example_options, ''<t><cref>\<newline> a note</cref></t>\<newline>'')"
proof -
  have b: "before_colon '': a note'' = []"
    by (simp add: before_colon_def)
  have a: "after_colon '': a note'' = '' a note''"
    by (simp add: after_colon_def b)
  show ?thesis
    using CommentHtml_payload[OF payload_colon_first, of example_options "[]"]
    by (simp add: a b)
qed

lemma CommentHtml_annotation:
  assumes "comment_payload text = Inr p"
  shows "CommentHtml (options, out) text = Inr (options, out @ annotation p)"
  using CommentHtml_payload[OF assms, of options out] by (simp add: annotation_def)

text \<open>
  Claim C10. \<open>CommentHtml\<close> cuts its input at the first \<open>-->\<close> found at a positive index
  (a slice that is always within bounds) and then slices off the first four bytes of what
  is left. When the cut text has at least four bytes the slice is within bounds: the
  payload is the cut text without its first four bytes, and the call returns the annotation
  of that payload. When the cut text is shorter the slice panics, and so does the call.
  The slice is within bounds, in particular, when the input starts with \<open><!--\<close> and every
  \<open>-->\<close> in it is at index 4 or later.
\<close>

theorem CommentHtml_slice_bounds:
  "comment_cut text = Inr (truncated text)
   \<and> (4 \<le> length (truncated text) \<longrightarrow>
        comment_payload text = Inr (drop 4 (truncated text))
        \<and> CommentHtml (options, out) text =
            Inr (options, out @ annotation (drop 4 (truncated text))))
   \<and> (length (truncated text) < 4 \<longrightarrow>
        comment_payload text = Inl SliceBoundsOutOfRange
        \<and> CommentHtml (options, out) text = Inl SliceBoundsOutOfRange)
   \<and> (HasPrefix text ''<!--'' \<and> (\<forall>j. HasPrefix (drop j text) ''-->'' \<longrightarrow> 4 \<le> j) \<longrightarrow>
        4 \<le> length (truncated text)
        \<and> comment_payload text = Inr (drop 4 (truncated text))
        \<and> CommentHtml (options, out) text =
            Inr (options, out @ annotation (drop 4 (truncated text))))"
proof -
  have cut: "comment_cut text = Inr (truncated text)"
    by (rule comment_cut_truncated)
  have long: "comment_payload text = Inr (drop 4 (truncated text))
              \<and> CommentHtml (options, out) text =
                  Inr (options, out @ annotation (drop 4 (truncated text)))"
    if "4 \<le> length (truncated text)"
  proof -
    have p: "comment_payload text = Inr (drop 4 (truncated text))"
      using that by (simp add: comment_payload_cases)
    then have "CommentHtml (options, out) text =
                 Inr (options, out @ annotation (drop 4 (truncated text)))"
      by (rule CommentHtml_annotation)
    with p show ?thesis by simp
  qed
  have short: "comment_payload text = Inl SliceBoundsOutOfRange
               \<and> CommentHtml (options, out) text = Inl SliceBoundsOutOfRange"
    if "length (truncated text) < 4"
    using that by (simp add: CommentHtml_def comment_payload_cases)
  have pre: "4 \<le> length (truncated text)"
    if pre: "HasPrefix text ''<!--'' \<and> (\<forall>j. HasPrefix (drop j text) ''-->'' \<longrightarrow> 4 \<le> j)"
  proof -
    have len: "4 \<le> length text"
      using pre HasPrefix_length[of "text" "''<!--''"] by simp
    show ?thesis
    proof (cases "0 < Index text ''-->''")
      case True
      then have "HasPrefix (drop (nat (Index text ''-->'')) text) ''-->''"
        and "nat (Index text ''-->'') \<le> length text"
        using Index_found[of "text" "''-->''"] by simp_all
      with pre have "4 \<le> nat (Index text ''-->'')" by blast
      with True \<open>nat (Index text ''-->'') \<le> length text\<close> show ?thesis
        by (simp add: truncated_def)
    next
      case False
      with len show ?thesis by (simp add: truncated_def)
    qed
  qed
  show ?thesis
    using cut long short pre by blast
qed

text \<open>
  An instance: \<open><!-->\<close> has its terminator at index 2 and panics; \<open><!--x-->\<close> has the payload
  \<open>x\<close> and returns its annotation.
\<close>

theorem CommentHtml_slice_bounds_witness:
  "CommentHtml (example_options, []) ''<!-->'' = Inl SliceBoundsOutOfRange
   \<and> comment_payload ''<!--x-->'' = Inr ''x''
   \<and> CommentHtml (example_options, []) ''<!--x-->'' =
       Inr (example_options, ''<t><cref>\<newline>x</cref></t>\<newline>'')"
proof -
  have short: "length (truncated ''<!-->'') < 4"
    by (simp add: truncated_def)
  have pre: "HasPrefix ''<!--x-->'' ''<!--''
             \<and> (\<forall>j. HasPrefix (drop j ''<!--x-->'') ''-->'' \<longrightarrow> 4 \<le> j)"
  proof (intro conjI allI impI)
    show "HasPrefix ''<!--x-->'' ''<!--''" by simp
    fix j assume h: "HasPrefix (drop j ''<!--x-->'') ''-->''"
    show "4 \<le> j"
    proof (rule ccontr)
      assume "\<not> 4 \<le> j"
      then have "j = 0 \<or> j = 1 \<or> j = 2 \<or> j = 3" by arith
      with h show False by (auto simp: numeral_3_eq_3 numeral_2_eq_2)
    qed
  qed
  have t: "drop 4 (truncated ''<!--x-->'') = ''x''"
    by (simp add: truncated_def)
  have a: "annotation ''x'' = ''<t><cref>\<newline>x</cref></t>\<newline>''"
    by (simp add: annotation_def)
  have panics: "CommentHtml (example_options, []) ''<!-->'' = Inl SliceBoundsOutOfRange"
    using CommentHtml_slice_bounds[of "''<!-->''" example_options "[]"] short by blast
  have returns: "comment_payload ''<!--x-->'' = Inr (drop 4 (truncated ''<!--x-->''))
                 \<and> CommentHtml (example_options, []) ''<!--x-->'' =
                     Inr (example_options, [] @ annotation (drop 4 (truncated ''<!--x-->'')))"
    using CommentHtml_slice_bounds[of "''<!--x-->''" example_options "[]"] pre by blast
  show ?thesis
    using panics returns unfolding t a by simp
qed

end
